theory Spec2Isabelle
  imports
    Complex_Main
    "HOL-Library.AList"
    "HOL-Library.Sublist"
    "HOL-Library.Char_ord"
    "HOL-Library.List_Lexorder"
begin

section \<open>The in-memory data store of PythonPatterns4/main.py\<close>

text \<open>
  The store is a single Python module: type validators, \<open>Column\<close>, \<open>Row\<close>, \<open>Table\<close>,
  \<open>SimpleQuery\<close>, \<open>JoinedTable\<close> and the \<open>Database\<close> registry. Each source function is
  translated below under its own name. Mutating methods take the object and return the
  outcome together with the object as it is after the call, so that what an exception
  leaves behind is part of the model. Every \<open>raise\<close> of the module and every failing
  dictionary lookup or comparison is a value of the type \<open>error\<close>.
\<close>

subsection \<open>Python values\<close>

text \<open>
  The values a row can hold: \<open>None\<close>, \<open>int\<close>, \<open>bool\<close>, \<open>str\<close> and \<open>datetime.date\<close>
  (year, month, day). A \<open>str\<close> is a list of characters; comparison of strings is
  lexicographic on the characters, as Python's is on code points.
\<close>

datatype pyval =
    VNone
  | VInt int
  | VBool bool
  | VStr string
  | VDate int int int

text \<open>
  The exceptions of the module, one constructor per raise site:
  \<^item> \<open>InvalidValue c v\<close>: \<open>ValueError("Invalid value for column c: v")\<close> of
    \<open>Table._validate_row_data\<close> (the spec's ValidationError);
  \<^item> \<open>RowNotFound i\<close>: \<open>KeyError("Row with id i not found")\<close> of \<open>Table.update\<close>
    (the spec's NotFoundError);
  \<^item> \<open>TableExists n\<close>: \<open>ValueError("Table n already exists")\<close> (DuplicateTableError);
  \<^item> \<open>RefTableMissing t\<close>: \<open>ValueError("Referenced table t does not exist")\<close>
    (UnknownTableError);
  \<^item> \<open>RefColumnMissing c t\<close>: \<open>ValueError("Referenced column c does not exist in table t")\<close>
    (UnknownColumnError);
  \<^item> \<open>NotPrimaryKey\<close>: \<open>ValueError("Foreign key must reference a primary key column")\<close>
    (NotPrimaryKeyError);
  \<^item> \<open>KeyError k\<close>: the lookup \<open>d[k]\<close> of a key that the dictionary does not hold;
  \<^item> \<open>TypeError\<close>: an ordering comparison or an addition between unsupported types.
\<close>

datatype error =
    InvalidValue string pyval
  | RowNotFound int
  | TableExists string
  | RefTableMissing string
  | RefColumnMissing string string
  | NotPrimaryKey
  | KeyError string
  | TypeError

text \<open>\<open>isinstance(v, int)\<close>: \<open>bool\<close> is a subclass of \<open>int\<close>.\<close>

fun isinstance_int :: "pyval \<Rightarrow> bool" where
  "isinstance_int (VInt i) = True"
| "isinstance_int (VBool b) = True"
| "isinstance_int v = False"

fun isinstance_bool :: "pyval \<Rightarrow> bool" where
  "isinstance_bool (VBool b) = True"
| "isinstance_bool v = False"

text \<open>The integer a numeric value stands for: \<open>True\<close> is 1 and \<open>False\<close> is 0.\<close>

fun int_of :: "pyval \<Rightarrow> int option" where
  "int_of (VInt i) = Some i"
| "int_of (VBool b) = Some (if b then 1 else 0)"
| "int_of v = None"

text \<open>
  \<open>a == b\<close> and \<open>a != b\<close> never raise: numbers are compared by value (so \<open>True == 1\<close>),
  strings and dates structurally, and values of unrelated types are unequal.
\<close>

fun py_eq :: "pyval \<Rightarrow> pyval \<Rightarrow> bool" where
  "py_eq VNone VNone = True"
| "py_eq (VStr s) (VStr t) = (s = t)"
| "py_eq (VDate y m d) (VDate y' m' d') = (y = y' \<and> m = m' \<and> d = d')"
| "py_eq a b = (case (int_of a, int_of b) of (Some i, Some j) \<Rightarrow> i = j | _ \<Rightarrow> False)"

definition py_ne :: "pyval \<Rightarrow> pyval \<Rightarrow> bool" where
  "py_ne a b = (\<not> py_eq a b)"

text \<open>
  \<open>a < b\<close>: defined between two numbers, two strings or two dates; every other pair
  (any pair with \<open>None\<close> included) raises \<open>TypeError\<close>.
\<close>

fun py_lt :: "pyval \<Rightarrow> pyval \<Rightarrow> error + bool" where
  "py_lt (VStr s) (VStr t) = Inr (s < t)"
| "py_lt (VDate y m d) (VDate y' m' d') =
     Inr (y < y' \<or> (y = y' \<and> (m < m' \<or> (m = m' \<and> d < d'))))"
| "py_lt a b = (case (int_of a, int_of b) of (Some i, Some j) \<Rightarrow> Inr (i < j) | _ \<Rightarrow> Inl TypeError)"

definition py_gt :: "pyval \<Rightarrow> pyval \<Rightarrow> error + bool" where
  "py_gt a b = py_lt b a"

definition py_le :: "pyval \<Rightarrow> pyval \<Rightarrow> error + bool" where
  "py_le a b = (case py_lt a b of Inl e \<Rightarrow> Inl e | Inr lt \<Rightarrow> Inr (lt \<or> py_eq a b))"

definition py_ge :: "pyval \<Rightarrow> pyval \<Rightarrow> error + bool" where
  "py_ge a b = py_le b a"

text \<open>\<open>a + b\<close> as \<open>sum\<close> and \<open>avg\<close> use it, with an \<open>int\<close> on the left.\<close>

definition py_add :: "int \<Rightarrow> pyval \<Rightarrow> error + int" where
  "py_add tot v = (case int_of v of Some i \<Rightarrow> Inr (tot + i) | None \<Rightarrow> Inl TypeError)"

subsection \<open>Data types\<close>

datatype data_type =
    IntegerType
  | StringType "int option"
  | BooleanType
  | DateType

text \<open>
  \<open>datetime.date.fromisoformat\<close> is a function of the standard library, not of this
  module. It is modelled after its documented format \<open>YYYY-MM-DD\<close>: ten characters, digits
  around two hyphens, naming a day that exists (years from 1 on). This is the function up to
  Python 3.10; from 3.11 on it also accepts the other ISO 8601 forms (\<open>YYYYMMDD\<close>, week
  dates), so every string accepted here is accepted there, and not conversely.
\<close>

definition is_digit :: "char \<Rightarrow> bool" where
  "is_digit c = (CHR ''0'' \<le> c \<and> c \<le> CHR ''9'')"

definition digit :: "char \<Rightarrow> nat" where
  "digit c = of_char c - 48"

definition leap_year :: "nat \<Rightarrow> bool" where
  "leap_year y = (y mod 4 = 0 \<and> (y mod 100 \<noteq> 0 \<or> y mod 400 = 0))"

definition days_in_month :: "nat \<Rightarrow> nat \<Rightarrow> nat" where
  "days_in_month y m =
     (if m = 2 then (if leap_year y then 29 else 28)
      else if m = 4 \<or> m = 6 \<or> m = 9 \<or> m = 11 then 30 else 31)"

fun fromisoformat_ok :: "string \<Rightarrow> bool" where
  "fromisoformat_ok [y1, y2, y3, y4, h1, m1, m2, h2, d1, d2] =
     (let y = 1000 * digit y1 + 100 * digit y2 + 10 * digit y3 + digit y4;
          m = 10 * digit m1 + digit m2;
          d = 10 * digit d1 + digit d2
      in list_all is_digit [y1, y2, y3, y4, m1, m2, d1, d2] \<and> h1 = CHR ''-'' \<and> h2 = CHR ''-''
         \<and> 1 \<le> y \<and> 1 \<le> m \<and> m \<le> 12 \<and> 1 \<le> d \<and> d \<le> days_in_month y m)"
| "fromisoformat_ok s = False"

text \<open>\<open>DataType.validate\<close> of the four subclasses.\<close>

fun validate :: "data_type \<Rightarrow> pyval \<Rightarrow> bool" where
  "validate IntegerType v = isinstance_int v"
| "validate (StringType max_length) v =
     (case v of
        VStr s \<Rightarrow>
          (case max_length of
             None \<Rightarrow> True
           | Some n \<Rightarrow> \<not> (int (length s) > n))
      | _ \<Rightarrow> False)"
| "validate BooleanType v = isinstance_bool v"
| "validate DateType v =
     (case v of
        VDate y m d \<Rightarrow> True
      | VStr s \<Rightarrow> fromisoformat_ok s
      | _ \<Rightarrow> False)"

subsection \<open>Column and Row\<close>

record column =
  col_name :: string
  data_type :: data_type
  nullable :: bool
  primary_key :: bool
  foreign_key :: "(string \<times> string) option"

definition column_validate :: "column \<Rightarrow> pyval \<Rightarrow> bool" where
  "column_validate c v = (if v = VNone then nullable c else validate (data_type c) v)"

text \<open>
  A \<open>dict\<close> with string keys is an association list in insertion order; \<open>d[k] = v\<close> is
  \<open>AList.update k v d\<close>, which overwrites in place or appends, as Python does.
\<close>

type_synonym dict = "(string \<times> pyval) list"

definition dict_update :: "dict \<Rightarrow> dict \<Rightarrow> dict" where
  "dict_update d new = foldl (\<lambda>acc (k, v). AList.update k v acc) d new"

text \<open>\<open>d.get(k)\<close>: the value, or \<open>None\<close> for a missing key.\<close>

definition dict_get :: "dict \<Rightarrow> string \<Rightarrow> pyval" where
  "dict_get d k = (case map_of d k of None \<Rightarrow> VNone | Some v \<Rightarrow> v)"

record row =
  data :: dict
  row_id :: "int option"

text \<open>\<open>Row(data)\<close> copies the dictionary and has no id yet.\<close>

definition Row :: "dict \<Rightarrow> row" where
  "Row d = \<lparr>data = d, row_id = None\<rparr>"

text \<open>\<open>Row.__getitem__\<close>: \<open>self.data[key]\<close>, a \<open>KeyError\<close> when the key is missing.\<close>

definition getitem :: "row \<Rightarrow> string \<Rightarrow> error + pyval" where
  "getitem r key = (case map_of (data r) key of None \<Rightarrow> Inl (KeyError key) | Some v \<Rightarrow> Inr v)"

definition keys :: "row \<Rightarrow> string list" where
  "keys r = map fst (data r)"

subsection \<open>Table\<close>

text \<open>
  \<open>columns\<close> is the dictionary \<open>{c.name: c for c in columns}\<close>, \<open>rows\<close> the list of rows
  in insertion order.
\<close>

record table =
  tbl_name :: string
  columns :: "(string \<times> column) list"
  rows :: "row list"
  next_id :: int

definition Table :: "string \<Rightarrow> column list \<Rightarrow> table" where
  "Table n cols =
     \<lparr>tbl_name = n,
      columns = foldl (\<lambda>m c. AList.update (col_name c) c m) [] cols,
      rows = [],
      next_id = 1\<rparr>"

text \<open>
  \<open>Table._validate_row_data\<close>: the loop over \<open>self.columns.items()\<close>; the first column
  that rejects its value raises, \<open>None\<close> is the normal return.
\<close>

fun validate_columns :: "(string \<times> column) list \<Rightarrow> dict \<Rightarrow> error option" where
  "validate_columns [] row_data = None"
| "validate_columns ((column_name, c) # cs) row_data =
     (let v = dict_get row_data column_name
      in if \<not> column_validate c v then Some (InvalidValue column_name v)
         else validate_columns cs row_data)"

definition validate_row_data :: "table \<Rightarrow> dict \<Rightarrow> error option" where
  "validate_row_data t row_data = validate_columns (columns t) row_data"

text \<open>\<open>Table.insert\<close>: the outcome and the table after the call.\<close>

definition insert_row :: "table \<Rightarrow> dict \<Rightarrow> (error + row) \<times> table" where
  "insert_row t row_data =
     (case validate_row_data t row_data of
        Some e \<Rightarrow> (Inl e, t)
      | None \<Rightarrow>
          (let r = (Row row_data)\<lparr>row_id := Some (next_id t)\<rparr>
           in (Inr r, t\<lparr>next_id := next_id t + 1, rows := rows t @ [r]\<rparr>)))"

text \<open>\<open>Table.get_by_id\<close>: the first row with that id, or \<open>None\<close>.\<close>

definition get_by_id :: "table \<Rightarrow> int \<Rightarrow> row option" where
  "get_by_id t i = find (\<lambda>r. row_id r = Some i) (rows t)"

text \<open>
  The row object that \<open>get_by_id\<close> returned is mutated in place; in the list of row
  values this replaces the first row with that id.
\<close>

fun replace_first :: "('a \<Rightarrow> bool) \<Rightarrow> 'a \<Rightarrow> 'a list \<Rightarrow> 'a list" where
  "replace_first P y [] = []"
| "replace_first P y (x # xs) = (if P x then y # xs else x # replace_first P y xs)"

text \<open>
  \<open>Table.update\<close>: the candidate is a copy of the row's dictionary with the new data
  written over it; only after it validates is the row's own dictionary updated.
\<close>

definition update_row :: "table \<Rightarrow> int \<Rightarrow> dict \<Rightarrow> (error + row) \<times> table" where
  "update_row t i new_data =
     (case get_by_id t i of
        None \<Rightarrow> (Inl (RowNotFound i), t)
      | Some r \<Rightarrow>
          (let candidate = dict_update (data r) new_data
           in case validate_row_data t candidate of
                Some e \<Rightarrow> (Inl e, t)
              | None \<Rightarrow>
                  (let r' = r\<lparr>data := dict_update (data r) new_data\<rparr>
                   in (Inr r', t\<lparr>rows := replace_first (\<lambda>x. row_id x = Some i) r' (rows t)\<rparr>))))"

text \<open>
  \<open>Table.delete\<close>: \<open>self.rows.remove(row)\<close> removes the first occurrence of the row found,
  which is the first row with that id.
\<close>

definition delete_row :: "table \<Rightarrow> int \<Rightarrow> bool \<times> table" where
  "delete_row t i =
     (case get_by_id t i of
        None \<Rightarrow> (False, t)
      | Some r \<Rightarrow> (True, t\<lparr>rows := remove1 r (rows t)\<rparr>))"

text \<open>
  A sequence of calls on one table, and the ids of the rows that the successful inserts
  returned, in the order of the calls.
\<close>

datatype op = Insert dict | Delete int

fun assigned_ids :: "table \<Rightarrow> op list \<Rightarrow> int option list" where
  "assigned_ids t [] = []"
| "assigned_ids t (Insert d # ops) =
     (case insert_row t d of
        (Inl e, t') \<Rightarrow> assigned_ids t' ops
      | (Inr r, t') \<Rightarrow> row_id r # assigned_ids t' ops)"
| "assigned_ids t (Delete i # ops) = assigned_ids (snd (delete_row t i)) ops"

text \<open>
  What every table built by \<open>Table\<close> and changed only through its methods satisfies: each
  stored row has an id, below the counter.
\<close>

definition table_inv :: "table \<Rightarrow> bool" where
  "table_inv t = list_all (\<lambda>r. case row_id r of None \<Rightarrow> False | Some i \<Rightarrow> i < next_id t) (rows t)"

subsection \<open>SimpleQuery\<close>

text \<open>
  \<open>q_table\<close> is \<open>self.table\<close>, the rows that iterating the source yields when the query
  runs. The builder methods return the query with one attribute changed.
\<close>

record query =
  q_table :: "row list"
  selected_columns :: "string list option"
  filter_conditions :: "(string \<times> string \<times> pyval) list"
  sort_column :: "string option"
  sort_ascending :: bool

definition SimpleQuery :: "row list \<Rightarrow> query" where
  "SimpleQuery src =
     \<lparr>q_table = src, selected_columns = None, filter_conditions = [],
      sort_column = None, sort_ascending = True\<rparr>"

definition select :: "query \<Rightarrow> string list \<Rightarrow> query" where
  "select q cols = q\<lparr>selected_columns := Some cols\<rparr>"

definition where_q :: "query \<Rightarrow> string \<Rightarrow> string \<Rightarrow> pyval \<Rightarrow> query" where
  "where_q q c operator v = q\<lparr>filter_conditions := filter_conditions q @ [(c, operator, v)]\<rparr>"

definition order_by :: "query \<Rightarrow> string \<Rightarrow> bool \<Rightarrow> query" where
  "order_by q c ascending = q\<lparr>sort_column := Some c, sort_ascending := ascending\<rparr>"

text \<open>
  One pass through the \<open>if\<close>/\<open>elif\<close> chain of \<open>_matches\<close>: \<open>Inr True\<close> when the chain
  executes \<open>return False\<close>, \<open>Inr False\<close> when it falls through to the next condition. An
  operator that the chain does not name rejects nothing.
\<close>

definition clause_rejects :: "string \<Rightarrow> pyval \<Rightarrow> pyval \<Rightarrow> error + bool" where
  "clause_rejects operator row_value v =
     (if operator = ''='' then Inr (py_ne row_value v)
      else if operator = ''>'' then
        (case py_gt row_value v of Inl e \<Rightarrow> Inl e | Inr b \<Rightarrow> Inr (\<not> b))
      else if operator = ''<'' then
        (case py_lt row_value v of Inl e \<Rightarrow> Inl e | Inr b \<Rightarrow> Inr (\<not> b))
      else if operator = ''>='' then
        (case py_ge row_value v of Inl e \<Rightarrow> Inl e | Inr b \<Rightarrow> Inr (\<not> b))
      else if operator = ''<='' then
        (case py_le row_value v of Inl e \<Rightarrow> Inl e | Inr b \<Rightarrow> Inr (\<not> b))
      else if operator = ''!='' then Inr (\<not> py_ne row_value v)
      else Inr False)"

text \<open>\<open>SimpleQuery._matches\<close>: \<open>row[column]\<close> is read before the operator is looked at.\<close>

fun matches :: "(string \<times> string \<times> pyval) list \<Rightarrow> row \<Rightarrow> error + bool" where
  "matches [] r = Inr True"
| "matches ((c, operator, v) # conds) r =
     (case getitem r c of
        Inl e \<Rightarrow> Inl e
      | Inr row_value \<Rightarrow>
          (case clause_rejects operator row_value v of
             Inl e \<Rightarrow> Inl e
           | Inr rejected \<Rightarrow> if rejected then Inr False else matches conds r))"

text \<open>The first loop of \<open>_filtered_rows\<close>; the first row that raises ends it.\<close>

fun filter_rows :: "(string \<times> string \<times> pyval) list \<Rightarrow> row list \<Rightarrow> error + row list" where
  "filter_rows conds [] = Inr []"
| "filter_rows conds (r # rs) =
     (case matches conds r of
        Inl e \<Rightarrow> Inl e
      | Inr b \<Rightarrow>
          (case filter_rows conds rs of
             Inl e \<Rightarrow> Inl e
           | Inr filtered \<Rightarrow> Inr (if b then r # filtered else filtered)))"

text \<open>\<open>key_func\<close>: the pair \<open>(v is None, v)\<close>.\<close>

type_synonym sort_key = "bool \<times> pyval"

definition key_func :: "string \<Rightarrow> row \<Rightarrow> error + sort_key" where
  "key_func c r = (case getitem r c of Inl e \<Rightarrow> Inl e | Inr v \<Rightarrow> Inr (v = VNone, v))"

text \<open>
  \<open>list.sort\<close> calls the key function on every element, in list order, before it compares
  anything: the rows paired with their keys, or the first \<open>KeyError\<close>.
\<close>

fun keyed :: "string \<Rightarrow> row list \<Rightarrow> error + (sort_key \<times> row) list" where
  "keyed c [] = Inr []"
| "keyed c (r # rs) =
     (case key_func c r of
        Inl e \<Rightarrow> Inl e
      | Inr k \<Rightarrow> (case keyed c rs of Inl e \<Rightarrow> Inl e | Inr ks \<Rightarrow> Inr ((k, r) # ks)))"

text \<open>
  \<open>k1 < k2\<close> on two such pairs, as Python compares tuples: the first components decide
  when they differ (\<open>False < True\<close>); otherwise the second components are tested with
  \<open>==\<close> and, only when unequal, compared with \<open><\<close>.
\<close>

fun tuple_lt :: "sort_key \<Rightarrow> sort_key \<Rightarrow> error + bool" where
  "tuple_lt (b1, v1) (b2, v2) =
     (if b1 \<noteq> b2 then Inr (\<not> b1 \<and> b2)
      else if py_eq v1 v2 then Inr False
      else py_lt v1 v2)"

text \<open>
  \<open>list.sort\<close> is a stable comparison sort that uses \<open><\<close> only. When every two keys of the
  list can be compared, its result is the one stable ordering of the list, computed here by
  insertion. When two keys cannot be compared, no comparison sort can place them without
  comparing one such pair, and the \<open>TypeError\<close> of that comparison leaves the sort.
  With \<open>reverse=True\<close> the list is reversed, sorted, and reversed again, which keeps
  equal keys in their original order.
\<close>

fun pairwise_comparable :: "sort_key list \<Rightarrow> bool" where
  "pairwise_comparable [] = True"
| "pairwise_comparable (k # ks) =
     (list_all (\<lambda>k'. \<not> isl (tuple_lt k k') \<and> \<not> isl (tuple_lt k' k)) ks \<and> pairwise_comparable ks)"

fun insort_lt :: "sort_key \<times> row \<Rightarrow> (sort_key \<times> row) list \<Rightarrow> (sort_key \<times> row) list" where
  "insort_lt x [] = [x]"
| "insort_lt x (y # ys) =
     (if tuple_lt (fst y) (fst x) = Inr True then y # insort_lt x ys else x # y # ys)"

definition stable_sort :: "(sort_key \<times> row) list \<Rightarrow> (sort_key \<times> row) list" where
  "stable_sort kxs = foldr insort_lt kxs []"

definition list_sort :: "bool \<Rightarrow> (sort_key \<times> row) list \<Rightarrow> error + row list" where
  "list_sort reverse kxs =
     (if \<not> pairwise_comparable (map fst kxs) then Inl TypeError
      else Inr (map snd (if reverse then rev (stable_sort (rev kxs)) else stable_sort kxs)))"

text \<open>\<open>SimpleQuery._filtered_rows\<close>.\<close>

definition filtered_rows :: "query \<Rightarrow> error + row list" where
  "filtered_rows q =
     (case filter_rows (filter_conditions q) (q_table q) of
        Inl e \<Rightarrow> Inl e
      | Inr filtered \<Rightarrow>
          (case sort_column q of
             None \<Rightarrow> Inr filtered
           | Some c \<Rightarrow>
               (case keyed c filtered of
                  Inl e \<Rightarrow> Inl e
                | Inr kxs \<Rightarrow> list_sort (\<not> sort_ascending q) kxs)))"

text \<open>
  The dictionary comprehension of \<open>execute\<close>: the selected columns that the row holds, in
  the order of the selection.
\<close>

definition project :: "string list \<Rightarrow> row \<Rightarrow> dict" where
  "project cols r =
     foldl (\<lambda>d c. case map_of (data r) c of None \<Rightarrow> d | Some v \<Rightarrow> AList.update c v d) [] cols"

text \<open>\<open>SimpleQuery.execute\<close>: \<open>None\<close> and the empty list are both false for \<open>if\<close>.\<close>

definition execute :: "query \<Rightarrow> error + row list" where
  "execute q =
     (case filtered_rows q of
        Inl e \<Rightarrow> Inl e
      | Inr filtered \<Rightarrow>
          (case selected_columns q of
             None \<Rightarrow> Inr filtered
           | Some cols \<Rightarrow>
               if cols = [] then Inr filtered
               else Inr (map (\<lambda>r. Row (project cols r)) filtered)))"

definition count_q :: "query \<Rightarrow> error + int" where
  "count_q q = (case filtered_rows q of Inl e \<Rightarrow> Inl e | Inr filtered \<Rightarrow> Inr (int (length filtered)))"

text \<open>The loop of \<open>SimpleQuery.sum\<close>, with the running total.\<close>

fun sum_loop :: "string \<Rightarrow> int \<Rightarrow> row list \<Rightarrow> error + int" where
  "sum_loop c tot [] = Inr tot"
| "sum_loop c tot (r # rs) =
     (case getitem r c of
        Inl e \<Rightarrow> Inl e
      | Inr v \<Rightarrow>
          if v \<noteq> VNone then
            (case py_add tot v of Inl e \<Rightarrow> Inl e | Inr tot' \<Rightarrow> sum_loop c tot' rs)
          else sum_loop c tot rs)"

definition sum_q :: "query \<Rightarrow> string \<Rightarrow> error + int" where
  "sum_q q c = (case filtered_rows q of Inl e \<Rightarrow> Inl e | Inr filtered \<Rightarrow> sum_loop c 0 filtered)"

text \<open>The loop of \<open>SimpleQuery.avg\<close>: the values that are not \<open>None\<close>, in order.\<close>

fun avg_values :: "string \<Rightarrow> row list \<Rightarrow> error + pyval list" where
  "avg_values c [] = Inr []"
| "avg_values c (r # rs) =
     (case getitem r c of
        Inl e \<Rightarrow> Inl e
      | Inr v \<Rightarrow>
          (case avg_values c rs of
             Inl e \<Rightarrow> Inl e
           | Inr vs \<Rightarrow> Inr (if v \<noteq> VNone then v # vs else vs)))"

text \<open>The built-in \<open>sum(values)\<close>, starting from 0.\<close>

fun builtin_sum :: "int \<Rightarrow> pyval list \<Rightarrow> error + int" where
  "builtin_sum tot [] = Inr tot"
| "builtin_sum tot (v # vs) =
     (case py_add tot v of Inl e \<Rightarrow> Inl e | Inr tot' \<Rightarrow> builtin_sum tot' vs)"

text \<open>
  \<open>SimpleQuery.avg\<close>. The result is a \<open>float\<close>: \<open>0.0\<close>, or the true division of two
  integers, which is the float nearest to their quotient. It is modelled by that quotient,
  which is exact whenever the quotient is a float; the rounding, and the \<open>OverflowError\<close> of
  a quotient beyond the range of floats, are outside the model.
\<close>

definition avg_q :: "query \<Rightarrow> string \<Rightarrow> error + real" where
  "avg_q q c =
     (case filtered_rows q of
        Inl e \<Rightarrow> Inl e
      | Inr filtered \<Rightarrow>
          (case avg_values c filtered of
             Inl e \<Rightarrow> Inl e
           | Inr vs \<Rightarrow>
               if vs = [] then Inr 0
               else (case builtin_sum 0 vs of
                       Inl e \<Rightarrow> Inl e
                     | Inr s \<Rightarrow> Inr (real_of_int s / real (length vs)))))"

subsection \<open>JoinedTable\<close>

text \<open>The two inner loops that fill \<open>data\<close>: \<open>data[f"{name}.{k}"] = v\<close> for every item.\<close>

definition prefixed :: "string \<Rightarrow> string \<Rightarrow> string" where
  "prefixed tname k = tname @ ''.'' @ k"

definition add_prefixed :: "string \<Rightarrow> dict \<Rightarrow> dict \<Rightarrow> dict" where
  "add_prefixed tname d items = foldl (\<lambda>acc (k, v). AList.update (prefixed tname k) v acc) d items"

definition join_row :: "string \<Rightarrow> string \<Rightarrow> row \<Rightarrow> row \<Rightarrow> row" where
  "join_row lname rname l r = Row (add_prefixed rname (add_prefixed lname [] (data l)) (data r))"

text \<open>
  \<open>JoinedTable._build_rows\<close>: the loop over the right rows for one left row, and the loop
  over the left rows. \<open>l[left_column]\<close> is read before \<open>r[right_column]\<close>, once per pair.
\<close>

fun join_inner :: "string \<Rightarrow> string \<Rightarrow> string \<Rightarrow> string \<Rightarrow> row \<Rightarrow> row list \<Rightarrow> error + row list" where
  "join_inner lname rname lc rc l [] = Inr []"
| "join_inner lname rname lc rc l (r # rs) =
     (case getitem l lc of
        Inl e \<Rightarrow> Inl e
      | Inr lv \<Rightarrow>
          (case getitem r rc of
             Inl e \<Rightarrow> Inl e
           | Inr rv \<Rightarrow>
               (case join_inner lname rname lc rc l rs of
                  Inl e \<Rightarrow> Inl e
                | Inr out \<Rightarrow> Inr (if py_eq lv rv then join_row lname rname l r # out else out))))"

fun join_outer :: "string \<Rightarrow> string \<Rightarrow> string \<Rightarrow> string \<Rightarrow> row list \<Rightarrow> row list \<Rightarrow> error + row list" where
  "join_outer lname rname lc rc [] rs = Inr []"
| "join_outer lname rname lc rc (l # ls) rs =
     (case join_inner lname rname lc rc l rs of
        Inl e \<Rightarrow> Inl e
      | Inr out \<Rightarrow>
          (case join_outer lname rname lc rc ls rs of
             Inl e \<Rightarrow> Inl e
           | Inr out' \<Rightarrow> Inr (out @ out')))"

definition build_rows :: "table \<Rightarrow> table \<Rightarrow> string \<Rightarrow> string \<Rightarrow> error + row list" where
  "build_rows left right left_column right_column =
     join_outer (tbl_name left) (tbl_name right) left_column right_column (rows left) (rows right)"

subsection \<open>Database\<close>

record database =
  db_name :: string
  tables :: "(string \<times> table) list"

text \<open>The foreign-key loop of \<open>Database.create_table\<close>; \<open>None\<close> when no check raises.\<close>

fun check_foreign_keys :: "(string \<times> table) list \<Rightarrow> column list \<Rightarrow> error option" where
  "check_foreign_keys tbls [] = None"
| "check_foreign_keys tbls (col # cols) =
     (case foreign_key col of
        None \<Rightarrow> check_foreign_keys tbls cols
      | Some (ref_table_name, ref_column_name) \<Rightarrow>
          (case map_of tbls ref_table_name of
             None \<Rightarrow> Some (RefTableMissing ref_table_name)
           | Some ref_table \<Rightarrow>
               (case map_of (columns ref_table) ref_column_name of
                  None \<Rightarrow> Some (RefColumnMissing ref_column_name ref_table_name)
                | Some ref_column \<Rightarrow>
                    if \<not> primary_key ref_column then Some NotPrimaryKey
                    else check_foreign_keys tbls cols)))"

definition create_table :: "database \<Rightarrow> string \<Rightarrow> column list \<Rightarrow> (error + table) \<times> database" where
  "create_table db n cols =
     (if map_of (tables db) n \<noteq> None then (Inl (TableExists n), db)
      else
        (case check_foreign_keys (tables db) cols of
           Some e \<Rightarrow> (Inl e, db)
         | None \<Rightarrow>
             (let t = Table n cols
              in (Inr t, db\<lparr>tables := AList.update n t (tables db)\<rparr>))))"

subsection \<open>Objects and references: \<open>Table.select_all\<close>\<close>

text \<open>
  Lists and rows are objects, and a Python list holds references to its elements. Where
  that sharing can be observed the store is explicit: list objects and row objects at
  addresses, and a counter for the next unused address. \<open>self.rows\<close> of a table is the
  address of a list object.
\<close>

type_synonym addr = nat

record store =
  list_objs :: "addr \<rightharpoonup> addr list"
  row_objs :: "addr \<rightharpoonup> row"
  next_addr :: addr

text \<open>
  \<open>Table.select_all\<close>: \<open>list(self.rows)\<close> allocates a new list object holding the same
  references. The result is the address of the new list and the store after the call;
  \<open>None\<close> if \<open>rows_ref\<close> is not the address of a list.
\<close>

definition select_all :: "store \<Rightarrow> addr \<Rightarrow> (addr \<times> store) option" where
  "select_all s rows_ref =
     (case list_objs s rows_ref of
        None \<Rightarrow> None
      | Some refs \<Rightarrow>
          (let a = next_addr s
           in Some (a, s\<lparr>list_objs := (list_objs s)(a \<mapsto> refs), next_addr := a + 1\<rparr>)))"

text \<open>
  What a caller can do with a reference. Every mutation of a list object (\<open>append\<close>,
  \<open>remove\<close>, \<open>sort\<close>, \<open>reverse\<close>, item assignment, \<open>clear\<close>) replaces its sequence of
  references by a function of the old one. \<open>Row.__setitem__\<close> writes into the dictionary
  of a row object.
\<close>

definition list_mutate :: "store \<Rightarrow> addr \<Rightarrow> (addr list \<Rightarrow> addr list) \<Rightarrow> store" where
  "list_mutate s a f =
     (case list_objs s a of
        None \<Rightarrow> s
      | Some refs \<Rightarrow> s\<lparr>list_objs := (list_objs s)(a \<mapsto> f refs)\<rparr>)"

definition setitem :: "store \<Rightarrow> addr \<Rightarrow> string \<Rightarrow> pyval \<Rightarrow> store" where
  "setitem s a key v =
     (case row_objs s a of
        None \<Rightarrow> s
      | Some r \<Rightarrow> s\<lparr>row_objs := (row_objs s)(a \<mapsto> r\<lparr>data := AList.update key v (data r)\<rparr>)\<rparr>)"

text \<open>The rows a table stores, read through its list object.\<close>

definition stored_rows :: "store \<Rightarrow> addr \<Rightarrow> row list" where
  "stored_rows s rows_ref =
     (case list_objs s rows_ref of
        None \<Rightarrow> []
      | Some refs \<Rightarrow> List.map_filter (row_objs s) refs)"

subsection \<open>Example objects\<close>

definition id_column :: column where
  "id_column =
     \<lparr>col_name = ''id'', data_type = IntegerType, nullable = False,
      primary_key = True, foreign_key = None\<rparr>"

definition flag_column :: column where
  "flag_column =
     \<lparr>col_name = ''flag'', data_type = BooleanType, nullable = True,
      primary_key = False, foreign_key = None\<rparr>"

definition users0 :: table where
  "users0 = Table ''users'' [id_column]"

definition users1 :: table where
  "users1 = snd (insert_row users0 [(''id'', VInt 1)])"

definition name_column :: column where
  "name_column =
     \<lparr>col_name = ''name'', data_type = StringType (Some 50), nullable = False,
      primary_key = False, foreign_key = None\<rparr>"

definition user_id_column :: "string \<Rightarrow> string \<Rightarrow> column" where
  "user_id_column ref_table ref_column =
     \<lparr>col_name = ''user_id'', data_type = IntegerType, nullable = False,
      primary_key = False, foreign_key = Some (ref_table, ref_column)\<rparr>"

definition db0 :: database where
  "db0 = \<lparr>db_name = ''testdb'', tables = []\<rparr>"

definition db1 :: database where
  "db1 = snd (create_table db0 ''users'' [id_column, name_column])"

text \<open>
  A caller's programs on the list that \<open>select_all\<close> returned: any mutation \<open>f\<close> of that
  list, and \<open>t.select_all()[0][key] = v\<close>, an assignment through its first element.
\<close>

definition select_all_then_mutate :: "store \<Rightarrow> addr \<Rightarrow> (addr list \<Rightarrow> addr list) \<Rightarrow> store" where
  "select_all_then_mutate s rows_ref f =
     (case select_all s rows_ref of
        None \<Rightarrow> s
      | Some (a, s') \<Rightarrow> list_mutate s' a f)"

definition select_all_then_setitem :: "store \<Rightarrow> addr \<Rightarrow> string \<Rightarrow> pyval \<Rightarrow> store" where
  "select_all_then_setitem s rows_ref key v =
     (case select_all s rows_ref of
        None \<Rightarrow> s
      | Some (a, s') \<Rightarrow>
          (case list_objs s' a of
             Some (r # rest) \<Rightarrow> setitem s' r key v
           | _ \<Rightarrow> s'))"

text \<open>Addresses are handed out in increasing order: no list object lies at or above the counter.\<close>

definition store_ok :: "store \<Rightarrow> bool" where
  "store_ok s = (\<forall>a \<in> dom (list_objs s). a < next_addr s)"

definition store0 :: store where
  "store0 =
     \<lparr>list_objs = [0 \<mapsto> [1]],
      row_objs = [1 \<mapsto> \<lparr>data = [(''name'', VStr ''Alice'')], row_id = Some 1\<rparr>],
      next_addr = 2\<rparr>"

definition store2 :: store where
  "store2 =
     \<lparr>list_objs = [0 \<mapsto> [1, 2]],
      row_objs = [1 \<mapsto> \<lparr>data = [(''name'', VStr ''Alice'')], row_id = Some 1\<rparr>,
                  2 \<mapsto> \<lparr>data = [(''name'', VStr ''Bob'')], row_id = Some 2\<rparr>],
      next_addr = 3\<rparr>"

text \<open>
  The vocabulary of the sorting property: a row is null at a column when it holds \<open>None\<close>
  there; two sort keys are equal when Python's \<open>==\<close> on the tuples says so; a row has the
  key \<open>k\<close> when its own key is equal to \<open>k\<close>.
\<close>

subsection \<open>Vocabulary of the properties\<close>

text \<open>A value up to \<open>==\<close>: a boolean is the integer it equals.\<close>

fun py_norm :: "pyval \<Rightarrow> pyval" where
  "py_norm (VBool b) = VInt (if b then 1 else 0)"
| "py_norm v = v"

definition is_null :: "string \<Rightarrow> row \<Rightarrow> bool" where
  "is_null c r = (getitem r c = Inr VNone)"

fun tuple_eq :: "sort_key \<Rightarrow> sort_key \<Rightarrow> bool" where
  "tuple_eq (b1, v1) (b2, v2) = (b1 = b2 \<and> py_eq v1 v2)"

text \<open>The first component of a key as a number: 0 for a value, 1 for \<open>None\<close>.\<close>

definition null_rank :: "sort_key \<times> row \<Rightarrow> nat" where
  "null_rank x = (if fst (fst x) then 1 else 0)"

definition has_key :: "string \<Rightarrow> sort_key \<Rightarrow> row \<Rightarrow> bool" where
  "has_key c k r = (case key_func c r of Inl e \<Rightarrow> False | Inr k' \<Rightarrow> tuple_eq k' k)"

text \<open>
  The vocabulary of the join property, in the words of the specification: the fields of a
  row prefixed with a table's name, as a map from field names to values, and the pairs of
  rows that a join on two columns matches.
\<close>

definition prefixed_fields :: "string \<Rightarrow> dict \<Rightarrow> (string \<rightharpoonup> pyval)" where
  "prefixed_fields tname d = map_of (map (\<lambda>(k, v). (prefixed tname k, v)) d)"

definition joinable :: "string \<Rightarrow> string \<Rightarrow> row \<Rightarrow> row \<Rightarrow> bool" where
  "joinable lc rc l r =
     (case (getitem l lc, getitem r rc) of
        (Inr lv, Inr rv) \<Rightarrow> py_eq lv rv
      | _ \<Rightarrow> False)"

definition pairs_t :: table where
  "pairs_t =
     \<lparr>tbl_name = ''t'', columns = [],
      rows = [\<lparr>data = [(''k'', VInt 1), (''v'', VInt 10)], row_id = Some 1\<rparr>,
              \<lparr>data = [(''k'', VInt 1), (''v'', VInt 20)], row_id = Some 2\<rparr>],
      next_id = 3\<rparr>"

definition table_a :: table where
  "table_a =
     \<lparr>tbl_name = ''a'', columns = [],
      rows = [\<lparr>data = [(''k'', VInt 0), (''b.c'', VInt 1)], row_id = Some 1\<rparr>],
      next_id = 2\<rparr>"

definition table_ab :: table where
  "table_ab =
     \<lparr>tbl_name = ''a.b'', columns = [],
      rows = [\<lparr>data = [(''k'', VInt 0), (''c'', VInt 2)], row_id = Some 1\<rparr>],
      next_id = 2\<rparr>"

definition users_t :: table where
  "users_t =
     \<lparr>tbl_name = ''users'', columns = [],
      rows = [\<lparr>data = [(''id'', VInt 1), (''name'', VStr ''Alice'')], row_id = Some 1\<rparr>,
              \<lparr>data = [(''id'', VInt 2), (''name'', VStr ''Bob'')], row_id = Some 2\<rparr>],
      next_id = 3\<rparr>"

definition orders_t :: table where
  "orders_t =
     \<lparr>tbl_name = ''orders'', columns = [],
      rows = [\<lparr>data = [(''id'', VInt 100), (''user_id'', VInt 1)], row_id = Some 1\<rparr>,
              \<lparr>data = [(''id'', VInt 101), (''user_id'', VInt 2)], row_id = Some 2\<rparr>],
      next_id = 3\<rparr>"

text \<open>
  A row that the loop of \<open>sum\<close> passes without raising: it holds \<open>None\<close> or a number at
  the column.
\<close>

definition summable :: "string \<Rightarrow> row \<Rightarrow> bool" where
  "summable c p = (case getitem p c of Inl e \<Rightarrow> False | Inr v \<Rightarrow> v = VNone \<or> isinstance_int v)"

section \<open>Properties\<close>

subsection \<open>Helper lemmas on tables\<close>

lemma validate_columns_None_iff:
  "validate_columns cs d = None \<longleftrightarrow> (\<forall>(k, c) \<in> set cs. column_validate c (dict_get d k))"
  by (induction cs d rule: validate_columns.induct) (auto simp: Let_def)

lemma find_snoc:
  "find P (xs @ [x]) = (case find P xs of None \<Rightarrow> (if P x then Some x else None) | Some y \<Rightarrow> Some y)"
  by (induction xs) auto

lemma find_None_iff_all: "find P xs = None \<longleftrightarrow> (\<forall>x \<in> set xs. \<not> P x)"
  by (induction xs) auto

lemma find_Some_P: "find P xs = Some x \<Longrightarrow> P x \<and> x \<in> set xs"
  by (induction xs) (auto split: if_splits)

lemma set_replace_first: "set (replace_first P y xs) \<subseteq> insert y (set xs)"
  by (induction xs) auto

text \<open>The invariant holds for a new table and is kept by every method.\<close>

lemma table_inv_Table: "table_inv (Table n cols)"
  by (simp add: table_inv_def Table_def)

lemma table_inv_insert: "table_inv t \<Longrightarrow> table_inv (snd (insert_row t d))"
  by (auto simp: table_inv_def insert_row_def Row_def Let_def list_all_iff split: option.splits)

lemma table_inv_update: "table_inv t \<Longrightarrow> table_inv (snd (update_row t i d))"
proof -
  assume inv: "table_inv t"
  show ?thesis
  proof (cases "get_by_id t i")
    case None
    then show ?thesis using inv by (simp add: update_row_def)
  next
    case (Some r)
    then have r: "row_id r = Some i" "r \<in> set (rows t)"
      using find_Some_P[of "\<lambda>r. row_id r = Some i" "rows t" r] by (auto simp: get_by_id_def)
    show ?thesis
      using inv Some r
        set_replace_first[of "\<lambda>x. row_id x = Some i" "r\<lparr>data := dict_update (data r) d\<rparr>" "rows t"]
      by (auto simp: update_row_def table_inv_def Let_def list_all_iff split: option.splits)
  qed
qed

lemma table_inv_delete: "table_inv t \<Longrightarrow> table_inv (snd (delete_row t i))"
  by (auto simp: table_inv_def delete_row_def list_all_iff split: option.splits
      dest: notin_set_remove1)

lemma users1_eq:
  "users1 = \<lparr>tbl_name = ''users'', columns = [(''id'', id_column)],
             rows = [\<lparr>data = [(''id'', VInt 1)], row_id = Some 1\<rparr>], next_id = 2\<rparr>"
  by (simp add: users1_def users0_def Table_def insert_row_def validate_row_data_def
      dict_get_def column_validate_def id_column_def Row_def Let_def)

subsection \<open>Failed mutations\<close>

text \<open>
  Claim C2. Whenever \<open>insert\<close> raises (the \<open>ValueError\<close> of validation) or \<open>update\<close> raises
  (that error, or the \<open>KeyError\<close> for an id that no row has), the table after the call is
  the table before it: its rows, each row's fields and id, and the counter \<open>next_id\<close>.
\<close>

theorem failed_mutation_leaves_table:
  "(fst (insert_row t d) = Inl e1 \<longrightarrow> snd (insert_row t d) = t) \<and>
   (fst (update_row t i d') = Inl e2 \<longrightarrow> snd (update_row t i d') = t)"
  by (auto simp: insert_row_def update_row_def Let_def split: option.splits)

theorem failed_mutation_leaves_table_witness:
  "fst (insert_row users1 [(''id'', VStr ''x'')]) = Inl (InvalidValue ''id'' (VStr ''x''))
   \<and> snd (insert_row users1 [(''id'', VStr ''x'')]) = users1
   \<and> fst (update_row users1 1 [(''id'', VNone)]) = Inl (InvalidValue ''id'' VNone)
   \<and> snd (update_row users1 1 [(''id'', VNone)]) = users1"
proof -
  have a: "fst (insert_row users1 [(''id'', VStr ''x'')]) = Inl (InvalidValue ''id'' (VStr ''x''))"
    by (simp add: users1_eq insert_row_def validate_row_data_def dict_get_def
        column_validate_def id_column_def)
  have b: "fst (update_row users1 1 [(''id'', VNone)]) = Inl (InvalidValue ''id'' VNone)"
    by (simp add: users1_eq update_row_def get_by_id_def validate_row_data_def dict_get_def
        dict_update_def column_validate_def id_column_def)
  show ?thesis
    using a b
      failed_mutation_leaves_table[of users1 "[(''id'', VStr ''x'')]"
        "InvalidValue ''id'' (VStr ''x'')" 1 "[(''id'', VNone)]" "InvalidValue ''id'' VNone"]
    by simp
qed

subsection \<open>Ids\<close>

lemma assigned_ids_shape:
  "\<exists>ids. assigned_ids t ops = map Some ids \<and> sorted_wrt (<) ids \<and> (\<forall>i \<in> set ids. next_id t \<le> i)"
proof (induction t ops rule: assigned_ids.induct)
  case (1 t)
  then show ?case by simp
next
  case (2 t d ops)
  show ?case
  proof (cases "validate_row_data t d")
    case None
    let ?r = "(Row d)\<lparr>row_id := Some (next_id t)\<rparr>"
    let ?t' = "t\<lparr>next_id := next_id t + 1, rows := rows t @ [?r]\<rparr>"
    have ins: "insert_row t d = (Inr ?r, ?t')" using None by (simp add: insert_row_def Let_def)
    from 2(2)[OF ins[symmetric]] obtain ids where
      ids: "assigned_ids ?t' ops = map Some ids" "sorted_wrt (<) ids" "\<forall>i \<in> set ids. next_id ?t' \<le> i"
      by auto
    have "assigned_ids t (Insert d # ops) = map Some (next_id t # ids)"
      using ins ids(1) by simp
    moreover have "sorted_wrt (<) (next_id t # ids)" using ids(2,3) by auto
    moreover have "\<forall>i \<in> set (next_id t # ids). next_id t \<le> i" using ids(3) by auto
    ultimately show ?thesis by blast
  next
    case (Some e)
    then have ins: "insert_row t d = (Inl e, t)" by (simp add: insert_row_def)
    from 2(1)[OF ins[symmetric]] show ?thesis using ins by simp
  qed
next
  case (3 t i ops)
  have "next_id (snd (delete_row t i)) = next_id t"
    by (simp add: delete_row_def split: option.splits)
  with 3 show ?case by simp
qed

text \<open>
  Claim C3. For every table and every sequence of \<open>insert\<close> and \<open>delete\<close> calls on it, the
  ids given to the rows of the successful inserts are strictly increasing in call order,
  hence pairwise distinct, whatever was deleted in between. On a new table, three inserts,
  the deletion of id 2 and a fourth insert give the ids 1, 2, 3, 4.
\<close>

theorem assigned_ids_increasing:
  "(\<exists>ids. assigned_ids t ops = map Some ids \<and> sorted_wrt (<) ids \<and> distinct ids)
   \<and> (validate_row_data (Table n cols) d1 = None \<and> validate_row_data (Table n cols) d2 = None
      \<and> validate_row_data (Table n cols) d3 = None \<and> validate_row_data (Table n cols) d4 = None
      \<longrightarrow> assigned_ids (Table n cols) [Insert d1, Insert d2, Insert d3, Delete 2, Insert d4]
            = [Some 1, Some 2, Some 3, Some 4])"
proof
  from assigned_ids_shape[of t ops] obtain ids where
    ids: "assigned_ids t ops = map Some ids" "sorted_wrt (<) ids" by blast
  have "distinct ids" using ids(2) by (simp add: strict_sorted_iff)
  with ids show "\<exists>ids. assigned_ids t ops = map Some ids \<and> sorted_wrt (<) ids \<and> distinct ids"
    by blast
next
  show "validate_row_data (Table n cols) d1 = None \<and> validate_row_data (Table n cols) d2 = None
      \<and> validate_row_data (Table n cols) d3 = None \<and> validate_row_data (Table n cols) d4 = None
      \<longrightarrow> assigned_ids (Table n cols) [Insert d1, Insert d2, Insert d3, Delete 2, Insert d4]
            = [Some 1, Some 2, Some 3, Some 4]"
    by (simp add: insert_row_def delete_row_def get_by_id_def validate_row_data_def Table_def
        Let_def Row_def)
qed

theorem assigned_ids_increasing_witness:
  "validate_row_data (Table ''users'' [id_column]) [(''id'', VInt 7)] = None
   \<and> assigned_ids (Table ''users'' [id_column])
        [Insert [(''id'', VInt 7)], Insert [(''id'', VInt 7)], Insert [(''id'', VInt 7)],
         Delete 2, Insert [(''id'', VInt 7)]]
      = [Some 1, Some 2, Some 3, Some 4]"
proof -
  have v: "validate_row_data (Table ''users'' [id_column]) [(''id'', VInt 7)] = None"
    by (simp add: validate_row_data_def Table_def dict_get_def column_validate_def id_column_def)
  show ?thesis
    using v assigned_ids_increasing[of _ _ "''users''" "[id_column]" "[(''id'', VInt 7)]"
        "[(''id'', VInt 7)]" "[(''id'', VInt 7)]" "[(''id'', VInt 7)]"]
    by simp
qed

subsection \<open>Insert, then look up\<close>

text \<open>
  Claim C4. On a table that satisfies the invariant of its methods, for every dictionary of
  fields that all columns accept, \<open>insert\<close> returns a row holding exactly those fields and
  the id that was the counter, and \<open>get_by_id\<close> of that id on the table after the call
  returns that row.
\<close>

theorem insert_then_get_by_id:
  assumes "table_inv t" and "validate_row_data t flds = None"
  shows "\<exists>r t'. insert_row t flds = (Inr r, t') \<and> row_id r = Some (next_id t) \<and> data r = flds
           \<and> get_by_id t' (next_id t) = Some r"
proof -
  have "find (\<lambda>r. row_id r = Some (next_id t)) (rows t) = None"
    using assms(1) by (auto simp: find_None_iff_all table_inv_def list_all_iff split: option.splits)
  then show ?thesis using assms(2)
    by (simp add: insert_row_def Let_def Row_def get_by_id_def find_snoc)
qed

theorem insert_then_get_by_id_witness:
  "table_inv users1 \<and> validate_row_data users1 [(''id'', VInt 5)] = None
   \<and> (\<exists>r t'. insert_row users1 [(''id'', VInt 5)] = (Inr r, t') \<and> row_id r = Some 2
         \<and> data r = [(''id'', VInt 5)] \<and> get_by_id t' 2 = Some r)"
proof -
  have i: "table_inv users1"
    unfolding users1_def users0_def by (rule table_inv_insert[OF table_inv_Table])
  have v: "validate_row_data users1 [(''id'', VInt 5)] = None"
    by (simp add: users1_eq validate_row_data_def dict_get_def column_validate_def id_column_def)
  have n: "next_id users1 = 2" by (simp add: users1_eq)
  show ?thesis
    using i v insert_then_get_by_id[OF i v] by (simp add: n)
qed

subsection \<open>Booleans and integers\<close>

text \<open>
  Claim C9. \<open>IntegerType.validate\<close> returns true for both booleans, so a column of that
  type accepts \<open>True\<close> and \<open>False\<close>: an \<open>insert\<close> or \<open>update\<close> whose every column is either
  an integer column given a boolean or a column that accepts its value succeeds.
  \<open>BooleanType.validate\<close> is false for every \<open>int\<close> that is not a \<open>bool\<close>, and a column of
  that type rejects it.
\<close>

theorem integer_type_accepts_bool:
  "validate IntegerType (VBool b)
   \<and> (data_type c = IntegerType \<longrightarrow> column_validate c (VBool b))
   \<and> ((\<forall>(k, c') \<in> set (columns t).
          (data_type c' = IntegerType \<and> isinstance_bool (dict_get d k))
          \<or> column_validate c' (dict_get d k))
        \<longrightarrow> (\<exists>r. fst (insert_row t d) = Inr r))
   \<and> (get_by_id t i = Some r0
        \<and> (\<forall>(k, c') \<in> set (columns t).
          (data_type c' = IntegerType \<and> isinstance_bool (dict_get (dict_update (data r0) d) k))
          \<or> column_validate c' (dict_get (dict_update (data r0) d) k))
        \<longrightarrow> (\<exists>r. fst (update_row t i d) = Inr r))
   \<and> \<not> validate BooleanType (VInt j)
   \<and> (data_type c = BooleanType \<longrightarrow> \<not> column_validate c (VInt j))"
proof -
  have acc: "column_validate c' v" if "data_type c' = IntegerType" "isinstance_bool v" for c' v
    using that by (cases v) (auto simp: column_validate_def)
  have ok: "validate_row_data t x = None"
    if "\<forall>(k, c') \<in> set (columns t).
          (data_type c' = IntegerType \<and> isinstance_bool (dict_get x k))
          \<or> column_validate c' (dict_get x k)" for x
    using that acc by (fastforce simp: validate_row_data_def validate_columns_None_iff)
  have ins: "(\<forall>(k, c') \<in> set (columns t).
          (data_type c' = IntegerType \<and> isinstance_bool (dict_get d k))
          \<or> column_validate c' (dict_get d k))
        \<longrightarrow> (\<exists>r. fst (insert_row t d) = Inr r)"
    using ok[of d] by (auto simp: insert_row_def Let_def)
  have upd: "get_by_id t i = Some r0
        \<and> (\<forall>(k, c') \<in> set (columns t).
          (data_type c' = IntegerType \<and> isinstance_bool (dict_get (dict_update (data r0) d) k))
          \<or> column_validate c' (dict_get (dict_update (data r0) d) k))
        \<longrightarrow> (\<exists>r. fst (update_row t i d) = Inr r)"
    using ok[of "dict_update (data r0) d"] by (auto simp: update_row_def Let_def)
  show ?thesis using ins upd by (simp add: column_validate_def)
qed

theorem integer_type_accepts_bool_witness:
  "data_type id_column = IntegerType \<and> column_validate id_column (VBool True)
   \<and> (\<exists>r. fst (insert_row users1 [(''id'', VBool False)]) = Inr r)
   \<and> get_by_id users1 1 = Some \<lparr>data = [(''id'', VInt 1)], row_id = Some 1\<rparr>
   \<and> (\<exists>r. fst (update_row users1 1 [(''id'', VBool True)]) = Inr r)
   \<and> data_type flag_column = BooleanType \<and> \<not> column_validate flag_column (VInt 1)"
proof -
  let ?r0 = "\<lparr>data = [(''id'', VInt 1)], row_id = Some 1\<rparr>"
  have g: "get_by_id users1 1 = Some ?r0" by (simp add: users1_eq get_by_id_def)
  have h1: "\<forall>(k, c') \<in> set (columns users1).
          (data_type c' = IntegerType \<and> isinstance_bool (dict_get [(''id'', VBool False)] k))
          \<or> column_validate c' (dict_get [(''id'', VBool False)] k)"
    by (simp add: users1_eq id_column_def dict_get_def)
  have h2: "\<forall>(k, c') \<in> set (columns users1).
          (data_type c' = IntegerType
            \<and> isinstance_bool (dict_get (dict_update (data ?r0) [(''id'', VBool True)]) k))
          \<or> column_validate c' (dict_get (dict_update (data ?r0) [(''id'', VBool True)]) k)"
    by (simp add: users1_eq id_column_def dict_get_def dict_update_def)
  have f: "data_type flag_column = BooleanType" by (simp add: flag_column_def)
  have i: "data_type id_column = IntegerType" by (simp add: id_column_def)
  show ?thesis
    using g h1 h2 f i
      integer_type_accepts_bool[of True id_column users1 "[(''id'', VBool False)]" 1 ?r0 1]
      integer_type_accepts_bool[of True flag_column users1 "[(''id'', VBool True)]" 1 ?r0 1]
    by blast
qed

subsection \<open>Creating tables\<close>

lemma check_foreign_keys_append:
  "check_foreign_keys tbls pre = None \<Longrightarrow>
   check_foreign_keys tbls (pre @ rest) = check_foreign_keys tbls rest"
  by (induction tbls pre rule: check_foreign_keys.induct) (auto split: option.splits if_splits)

text \<open>
  Claim C6. \<open>create_table\<close> raises the error for a duplicate name when the name is
  registered. Otherwise, at the first column whose foreign key fails a check (the columns
  before it pass), it raises the error for an unregistered table, for a column that the
  referenced table lacks, or for a referenced column that is not a primary key, in that
  order of checks. Whenever it raises, the catalog of tables is as it was before the call.
\<close>

theorem create_table_errors:
  "(map_of (tables db) n \<noteq> None \<longrightarrow> create_table db n cols = (Inl (TableExists n), db))
   \<and> (map_of (tables db) n = None \<and> cols = pre @ col # post
        \<and> check_foreign_keys (tables db) pre = None \<and> foreign_key col = Some (rt, rc) \<longrightarrow>
        (map_of (tables db) rt = None \<longrightarrow> create_table db n cols = (Inl (RefTableMissing rt), db))
        \<and> (map_of (tables db) rt = Some ref \<and> map_of (columns ref) rc = None
             \<longrightarrow> create_table db n cols = (Inl (RefColumnMissing rc rt), db))
        \<and> (map_of (tables db) rt = Some ref \<and> map_of (columns ref) rc = Some c' \<and> \<not> primary_key c'
             \<longrightarrow> create_table db n cols = (Inl NotPrimaryKey, db)))
   \<and> (fst (create_table db n cols) = Inl e \<longrightarrow> snd (create_table db n cols) = db)"
  by (auto simp: create_table_def check_foreign_keys_append Let_def split: option.splits)

lemma db1_eq:
  "db1 = \<lparr>db_name = ''testdb'',
          tables = [(''users'', \<lparr>tbl_name = ''users'',
                                  columns = [(''id'', id_column), (''name'', name_column)],
                                  rows = [], next_id = 1\<rparr>)]\<rparr>"
  by (simp add: db1_def db0_def create_table_def Table_def id_column_def name_column_def Let_def)

theorem create_table_errors_witness:
  "create_table db1 ''users'' [] = (Inl (TableExists ''users''), db1)
   \<and> create_table db1 ''orders'' [id_column, user_id_column ''unknown'' ''id'']
       = (Inl (RefTableMissing ''unknown''), db1)
   \<and> create_table db1 ''orders'' [id_column, user_id_column ''users'' ''uid'']
       = (Inl (RefColumnMissing ''uid'' ''users''), db1)
   \<and> create_table db1 ''orders'' [id_column, user_id_column ''users'' ''name'']
       = (Inl NotPrimaryKey, db1)"
proof -
  let ?users = "\<lparr>tbl_name = ''users'', columns = [(''id'', id_column), (''name'', name_column)],
                  rows = [], next_id = 1\<rparr>"
  have t: "map_of (tables db1) ''users'' = Some ?users" "map_of (tables db1) ''orders'' = None"
    "map_of (tables db1) ''unknown'' = None"
    by (simp_all add: db1_eq)
  have pre: "check_foreign_keys (tables db1) [id_column] = None"
    by (simp add: id_column_def)
  have fk: "foreign_key (user_id_column a b) = Some (a, b)" for a b
    by (simp add: user_id_column_def)
  have c: "map_of (columns ?users) ''uid'' = None" "map_of (columns ?users) ''name'' = Some name_column"
    "\<not> primary_key name_column"
    by (simp_all add: name_column_def)
  have l: "[id_column, x] = [id_column] @ x # []" for x :: column by simp
  show ?thesis
    using t pre c
      create_table_errors[of db1 "''users''" "[]"]
      create_table_errors[of db1 "''orders''" "[id_column, user_id_column ''unknown'' ''id'']"
        "[id_column]" "user_id_column ''unknown'' ''id''" "[]" "''unknown''" "''id''"]
      create_table_errors[of db1 "''orders''" "[id_column, user_id_column ''users'' ''uid'']"
        "[id_column]" "user_id_column ''users'' ''uid''" "[]" "''users''" "''uid''" ?users]
      create_table_errors[of db1 "''orders''" "[id_column, user_id_column ''users'' ''name'']"
        "[id_column]" "user_id_column ''users'' ''name''" "[]" "''users''" "''name''" ?users name_column]
    by (simp add: fk)
qed

subsection \<open>The list returned by \<open>select_all\<close>\<close>

text \<open>
  Claim C8, as amended. \<open>select_all\<close> returns a new list object, distinct from the table's
  own list and holding the same row references. Whatever a caller does to that list
  (adding, removing or reordering elements) leaves the table's list, and so the rows it
  stores, unchanged. The elements are the table's own row objects.
\<close>

theorem select_all_copy:
  assumes "list_objs s rows_ref = Some refs" and "store_ok s"
  shows "(\<exists>a s'. select_all s rows_ref = Some (a, s') \<and> a \<noteq> rows_ref
            \<and> list_objs s' a = Some refs \<and> list_objs s' rows_ref = Some refs
            \<and> row_objs s' = row_objs s)
         \<and> list_objs (select_all_then_mutate s rows_ref f) rows_ref = Some refs
         \<and> row_objs (select_all_then_mutate s rows_ref f) = row_objs s
         \<and> stored_rows (select_all_then_mutate s rows_ref f) rows_ref = stored_rows s rows_ref"
proof -
  have ne: "next_addr s \<noteq> rows_ref" using assms by (auto simp: store_ok_def)
  show ?thesis using assms(1) ne
    by (auto simp: select_all_def select_all_then_mutate_def list_mutate_def stored_rows_def Let_def)
qed

theorem select_all_copy_witness:
  "list_objs store2 0 = Some [1, 2] \<and> store_ok store2
   \<and> map_option fst (select_all store2 0) = Some 3
   \<and> list_objs (select_all_then_mutate store2 0 rev) 3 = Some [2, 1]
   \<and> list_objs (select_all_then_mutate store2 0 rev) 0 = Some [1, 2]
   \<and> stored_rows (select_all_then_mutate store2 0 rev) 0
       = [\<lparr>data = [(''name'', VStr ''Alice'')], row_id = Some 1\<rparr>,
          \<lparr>data = [(''name'', VStr ''Bob'')], row_id = Some 2\<rparr>]
   \<and> list_objs (select_all_then_mutate store2 0 (\<lambda>refs. [])) 3 = Some []
   \<and> list_objs (select_all_then_mutate store2 0 (\<lambda>refs. [])) 0 = Some [1, 2]
   \<and> stored_rows (select_all_then_mutate store2 0 (\<lambda>refs. [])) 0 = stored_rows store2 0"
proof -
  have a: "list_objs store2 0 = Some [1, 2]" by (simp add: store2_def)
  have b: "store_ok store2" by (simp add: store_ok_def store2_def)
  have c: "map_option fst (select_all store2 0) = Some 3"
    by (simp add: select_all_def store2_def Let_def)
  have d: "list_objs (select_all_then_mutate store2 0 rev) 3 = Some [2, 1]"
    by (simp add: select_all_then_mutate_def select_all_def list_mutate_def store2_def Let_def)
  have e: "list_objs (select_all_then_mutate store2 0 (\<lambda>refs. [])) 3 = Some []"
    by (simp add: select_all_then_mutate_def select_all_def list_mutate_def store2_def Let_def)
  have f: "stored_rows store2 0
       = [\<lparr>data = [(''name'', VStr ''Alice'')], row_id = Some 1\<rparr>,
          \<lparr>data = [(''name'', VStr ''Bob'')], row_id = Some 2\<rparr>]"
    by (simp add: stored_rows_def store2_def)
  show ?thesis
    using a b c d e f select_all_copy[OF a b, of rev] select_all_copy[OF a b, of "\<lambda>refs. []"]
    by simp
qed

text \<open>
  Claim C8, as stated, fails for a modification of an element: after
  \<open>t.select_all()[0]["name"] = "Eve"\<close> the table's stored row holds \<open>"Eve"\<close>.
\<close>

theorem select_all_shares_rows:
  "stored_rows store0 0 = [\<lparr>data = [(''name'', VStr ''Alice'')], row_id = Some 1\<rparr>]
   \<and> stored_rows (select_all_then_setitem store0 0 ''name'' (VStr ''Eve'')) 0
       = [\<lparr>data = [(''name'', VStr ''Eve'')], row_id = Some 1\<rparr>]"
  by (simp add: store0_def select_all_then_setitem_def select_all_def setitem_def stored_rows_def
      Let_def)

subsection \<open>Filtering and aggregates\<close>

lemma avg_values_all_None:
  "\<forall>r \<in> set out. getitem r c = Inr VNone \<Longrightarrow> avg_values c out = Inr []"
  by (induction out) auto

lemma example_filtered:
  assumes "getitem r1 ''value'' = Inr (VInt 10)" "getitem r2 ''value'' = Inr (VInt 20)"
       "getitem r3 ''value'' = Inr (VInt 30)"
  shows "filtered_rows (where_q (SimpleQuery [r1, r2, r3]) ''value'' ''>'' (VInt 10)) = Inr [r2, r3]"
  using assms
  by (simp add: filtered_rows_def where_q_def SimpleQuery_def clause_rejects_def py_gt_def)

lemma avg_all_None:
  "filtered_rows q = Inr out \<Longrightarrow> \<forall>r \<in> set out. getitem r c = Inr VNone \<Longrightarrow> avg_q q c = Inr 0"
  using avg_values_all_None[of out c] by (simp add: avg_q_def)

text \<open>
  Claim C5. Over three rows holding 10, 20 and 30 in the column \<open>value\<close>, the query
  \<open>where("value", ">", 10)\<close> yields exactly the second and third row on \<open>execute\<close>, its
  \<open>count\<close> is 2, its \<open>sum("value")\<close> is 50 and its \<open>avg("value")\<close> is 25.0. For every
  query whose filter and sort return no row, or only rows that hold \<open>None\<close> at the column,
  \<open>avg\<close> returns 0.0.
\<close>

theorem query_example:
  "(getitem r1 ''value'' = Inr (VInt 10) \<and> getitem r2 ''value'' = Inr (VInt 20)
      \<and> getitem r3 ''value'' = Inr (VInt 30) \<longrightarrow>
      execute (where_q (SimpleQuery [r1, r2, r3]) ''value'' ''>'' (VInt 10)) = Inr [r2, r3]
      \<and> count_q (where_q (SimpleQuery [r1, r2, r3]) ''value'' ''>'' (VInt 10)) = Inr 2
      \<and> sum_q (where_q (SimpleQuery [r1, r2, r3]) ''value'' ''>'' (VInt 10)) ''value'' = Inr 50
      \<and> avg_q (where_q (SimpleQuery [r1, r2, r3]) ''value'' ''>'' (VInt 10)) ''value'' = Inr 25)
   \<and> (filtered_rows q = Inr [] \<longrightarrow> avg_q q c = Inr 0)
   \<and> (filtered_rows q = Inr out \<and> (\<forall>r \<in> set out. getitem r c = Inr VNone) \<longrightarrow> avg_q q c = Inr 0)"
proof (intro conjI impI)
  let ?q = "where_q (SimpleQuery [r1, r2, r3]) ''value'' ''>'' (VInt 10)"
  assume h: "getitem r1 ''value'' = Inr (VInt 10) \<and> getitem r2 ''value'' = Inr (VInt 20)
      \<and> getitem r3 ''value'' = Inr (VInt 30)"
  then have f: "filtered_rows ?q = Inr [r2, r3]" using example_filtered by blast
  have sel: "selected_columns ?q = None" by (simp add: where_q_def SimpleQuery_def)
  show "execute ?q = Inr [r2, r3]" by (simp add: execute_def f sel)
  show "count_q ?q = Inr 2" by (simp add: count_q_def f)
  show "sum_q ?q ''value'' = Inr 50" using h by (simp add: sum_q_def f py_add_def)
  show "avg_q ?q ''value'' = Inr 25" using h by (simp add: avg_q_def f py_add_def)
next
  assume "filtered_rows q = Inr []"
  then show "avg_q q c = Inr 0" using avg_all_None[of q "[]" c] by simp
next
  assume "filtered_rows q = Inr out \<and> (\<forall>r \<in> set out. getitem r c = Inr VNone)"
  then show "avg_q q c = Inr 0" using avg_all_None[of q out c] by blast
qed


theorem query_example_witness:
  "getitem (Row [(''value'', VInt 10)]) ''value'' = Inr (VInt 10)
   \<and> execute (where_q (SimpleQuery [Row [(''value'', VInt 10)], Row [(''value'', VInt 20)],
         Row [(''value'', VInt 30)]]) ''value'' ''>'' (VInt 10))
       = Inr [Row [(''value'', VInt 20)], Row [(''value'', VInt 30)]]
   \<and> avg_q (where_q (SimpleQuery [Row [(''value'', VInt 10)], Row [(''value'', VInt 20)],
         Row [(''value'', VInt 30)]]) ''value'' ''>'' (VInt 10)) ''value'' = Inr 25
   \<and> filtered_rows (where_q (SimpleQuery [Row [(''value'', VInt 10)]]) ''value'' ''>'' (VInt 10)) = Inr []
   \<and> avg_q (where_q (SimpleQuery [Row [(''value'', VInt 10)]]) ''value'' ''>'' (VInt 10)) ''value'' = Inr 0
   \<and> filtered_rows (SimpleQuery [Row [(''value'', VNone)]]) = Inr [Row [(''value'', VNone)]]
   \<and> avg_q (SimpleQuery [Row [(''value'', VNone)]]) ''value'' = Inr 0"
proof -
  have g: "getitem (Row [(''value'', v)]) ''value'' = Inr v" for v
    by (simp add: getitem_def Row_def)
  have f1: "filtered_rows (where_q (SimpleQuery [Row [(''value'', VInt 10)]]) ''value'' ''>'' (VInt 10)) = Inr []"
    by (simp add: filtered_rows_def where_q_def SimpleQuery_def clause_rejects_def py_gt_def g)
  have f2: "filtered_rows (SimpleQuery [Row [(''value'', VNone)]]) = Inr [Row [(''value'', VNone)]]"
    by (simp add: filtered_rows_def SimpleQuery_def)
  show ?thesis
    using g f1 f2
      query_example[of "Row [(''value'', VInt 10)]" "Row [(''value'', VInt 20)]" "Row [(''value'', VInt 30)]"
        "where_q (SimpleQuery [Row [(''value'', VInt 10)]]) ''value'' ''>'' (VInt 10)" "''value''"]
      query_example[of "Row [(''value'', VInt 10)]" "Row [(''value'', VInt 20)]" "Row [(''value'', VInt 30)]"
        "SimpleQuery [Row [(''value'', VNone)]]" "''value''" "[Row [(''value'', VNone)]]"]
    by simp
qed

subsection \<open>Sorting\<close>

lemma py_eq_iff_norm: "py_eq a b \<longleftrightarrow> py_norm a = py_norm b"
  by (cases a; cases b) simp_all

lemma tuple_eq_iff: "tuple_eq x y \<longleftrightarrow> fst x = fst y \<and> py_norm (snd x) = py_norm (snd y)"
  by (cases x; cases y) (simp add: py_eq_iff_norm)

lemma tuple_eq_not_lt: "tuple_eq y k \<Longrightarrow> tuple_eq x k \<Longrightarrow> tuple_lt y x \<noteq> Inr True"
  by (cases y; cases x) (simp add: tuple_eq_iff py_eq_iff_norm)

lemma set_insort_lt: "set (insort_lt x ys) = insert x (set ys)"
  by (induction ys) auto

lemma set_stable_sort: "set (stable_sort xs) = set xs"
  by (induction xs) (auto simp: stable_sort_def set_insort_lt)

lemma filter_insort_lt:
  "filter (\<lambda>y. tuple_eq (fst y) k) (insort_lt x ys)
     = (if tuple_eq (fst x) k then x # filter (\<lambda>y. tuple_eq (fst y) k) ys
        else filter (\<lambda>y. tuple_eq (fst y) k) ys)"
  by (induction ys) (auto dest: tuple_eq_not_lt)

lemma filter_stable_sort:
  "filter (\<lambda>y. tuple_eq (fst y) k) (stable_sort xs) = filter (\<lambda>y. tuple_eq (fst y) k) xs"
  by (induction xs) (auto simp: stable_sort_def filter_insort_lt)





lemma rank_lt: "tuple_lt (fst y) (fst x) = Inr True \<Longrightarrow> null_rank y \<le> null_rank x"
  by (cases "fst y"; cases "fst x") (simp add: null_rank_def split: if_splits)

lemma rank_not_lt: "tuple_lt (fst y) (fst x) \<noteq> Inr True \<Longrightarrow> null_rank x \<le> null_rank y"
  by (cases "fst y"; cases "fst x") (simp add: null_rank_def split: if_splits)

lemma nulls_last_insort_lt:
  "sorted_wrt (\<lambda>a b. null_rank a \<le> null_rank b) ys \<Longrightarrow>
   sorted_wrt (\<lambda>a b. null_rank a \<le> null_rank b) (insort_lt x ys)"
proof (induction ys)
  case Nil
  then show ?case by simp
next
  case (Cons y ys)
  show ?case
  proof (cases "tuple_lt (fst y) (fst x) = Inr True")
    case True
    then show ?thesis using Cons rank_lt[OF True] by (auto simp: set_insort_lt)
  next
    case False
    have "null_rank x \<le> null_rank y" using rank_not_lt[OF False] .
    moreover have "\<forall>z \<in> set ys. null_rank y \<le> null_rank z" using Cons.prems by simp
    ultimately have "\<forall>z \<in> set ys. null_rank x \<le> null_rank z" by (meson order_trans)
    then show ?thesis using False Cons.prems \<open>null_rank x \<le> null_rank y\<close> by simp
  qed
qed

lemma nulls_last_stable_sort:
  "sorted_wrt (\<lambda>a b. null_rank a \<le> null_rank b) (stable_sort xs)"
  by (induction xs) (simp_all add: stable_sort_def nulls_last_insort_lt)


lemma keyed_props:
  "keyed c rs = Inr kxs \<Longrightarrow>
   map snd kxs = rs \<and> (\<forall>x \<in> set kxs. key_func c (snd x) = Inr (fst x))"
  by (induction rs arbitrary: kxs) (auto split: sum.splits)

lemma key_func_null: "key_func c r = Inr k \<Longrightarrow> fst k = is_null c r"
  by (auto simp: key_func_def is_null_def split: sum.splits)

lemma rank_le_null:
  assumes "key_func c (snd x) = Inr (fst x)" "key_func c (snd y) = Inr (fst y)"
    and "null_rank x \<le> null_rank y" and "is_null c (snd x)"
  shows "is_null c (snd y)"
proof -
  have "fst (fst x)" using key_func_null[OF assms(1)] assms(4) by simp
  then have "fst (fst y)" using assms(3) by (simp add: null_rank_def split: if_splits)
  then show ?thesis using key_func_null[OF assms(2)] by simp
qed

lemma has_key_keyed:
  "key_func c (snd x) = Inr (fst x) \<Longrightarrow> has_key c k (snd x) = tuple_eq (fst x) k"
  by (simp add: has_key_def)

lemma filter_rows_of_keyed:
  assumes "\<forall>x \<in> set S. key_func c (snd x) = Inr (fst x)"
  shows "filter (has_key c k) (map snd S) = map snd (filter (\<lambda>y. tuple_eq (fst y) k) S)"
proof -
  have "filter (has_key c k \<circ> snd) S = filter (\<lambda>y. tuple_eq (fst y) k) S"
    by (rule filter_cong) (use assms has_key_keyed in auto)
  then show ?thesis by (simp add: filter_map)
qed

lemma nulls_last_rows:
  assumes "\<forall>x \<in> set S. key_func c (snd x) = Inr (fst x)"
    and "sorted_wrt (\<lambda>a b. null_rank a \<le> null_rank b) S"
  shows "sorted_wrt (\<lambda>a b. is_null c a \<longrightarrow> is_null c b) (map snd S)"
proof -
  have "sorted_wrt (\<lambda>x y. is_null c (snd x) \<longrightarrow> is_null c (snd y)) S"
  proof (rule sorted_wrt_mono_rel[OF _ assms(2)])
    fix x y
    assume "x \<in> set S" "y \<in> set S" "null_rank x \<le> null_rank y"
    then show "is_null c (snd x) \<longrightarrow> is_null c (snd y)"
      using assms(1) rank_le_null[of c x y] by blast
  qed
  then show ?thesis by (simp add: sorted_wrt_map)
qed

lemma nulls_first_rows:
  assumes "\<forall>x \<in> set S. key_func c (snd x) = Inr (fst x)"
    and "sorted_wrt (\<lambda>a b. null_rank a \<le> null_rank b) S"
  shows "sorted_wrt (\<lambda>a b. is_null c b \<longrightarrow> is_null c a) (map snd (rev S))"
proof -
  have "sorted_wrt (\<lambda>a b. is_null c a \<longrightarrow> is_null c b) (map snd S)"
    using nulls_last_rows[OF assms] .
  then have "sorted_wrt (\<lambda>a b. is_null c b \<longrightarrow> is_null c a) (rev (map snd S))"
    by (simp add: sorted_wrt_rev)
  then show ?thesis by (simp add: rev_map)
qed

text \<open>
  Claim C1, as amended. For every query with a sort key on a column \<open>c\<close> whose
  \<open>_filtered_rows\<close> returns, ascending order places every row that is not null at \<open>c\<close>
  before every row that is null at \<open>c\<close> (no null row is followed by a row that is not
  null), descending order places every null row before every row that is not null, and in
  both orders the rows with equal sort keys keep their relative order: for every key, the
  rows having it form the same sequence in the result as in the filtered input.
\<close>

theorem sort_nulls_last_stable:
  assumes "sort_column q = Some c"
    and "filter_rows (filter_conditions q) (q_table q) = Inr inp"
    and "filtered_rows q = Inr out"
  shows "(sort_ascending q \<longrightarrow> sorted_wrt (\<lambda>a b. is_null c a \<longrightarrow> is_null c b) out)
       \<and> (\<not> sort_ascending q \<longrightarrow> sorted_wrt (\<lambda>a b. is_null c b \<longrightarrow> is_null c a) out)
       \<and> (\<forall>k. filter (has_key c k) out = filter (has_key c k) inp)"
proof -
  from assms obtain kxs where k: "keyed c inp = Inr kxs"
    and ls: "list_sort (\<not> sort_ascending q) kxs = Inr out"
    by (auto simp: filtered_rows_def split: sum.splits)
  have inp: "map snd kxs = inp" and keys: "\<forall>x \<in> set kxs. key_func c (snd x) = Inr (fst x)"
    using keyed_props[OF k] by auto
  have keys_rev: "\<forall>x \<in> set (rev kxs). key_func c (snd x) = Inr (fst x)" using keys by simp
  show ?thesis
  proof (cases "sort_ascending q")
    case True
    then have out: "out = map snd (stable_sort kxs)"
      using ls by (simp add: list_sort_def split: if_splits)
    have ks: "\<forall>x \<in> set (stable_sort kxs). key_func c (snd x) = Inr (fst x)"
      using keys by (simp add: set_stable_sort)
    have "sorted_wrt (\<lambda>a b. is_null c a \<longrightarrow> is_null c b) out"
      unfolding out by (rule nulls_last_rows[OF ks nulls_last_stable_sort])
    moreover have "filter (has_key c k) out = filter (has_key c k) inp" for k
      unfolding out inp[symmetric]
      by (simp only: filter_rows_of_keyed[OF ks] filter_rows_of_keyed[OF keys] filter_stable_sort)
    ultimately show ?thesis using True by simp
  next
    case False
    then have out: "out = map snd (rev (stable_sort (rev kxs)))"
      using ls by (simp add: list_sort_def split: if_splits)
    have ks: "\<forall>x \<in> set (stable_sort (rev kxs)). key_func c (snd x) = Inr (fst x)"
      using keys by (simp add: set_stable_sort)
    have ks': "\<forall>x \<in> set (rev (stable_sort (rev kxs))). key_func c (snd x) = Inr (fst x)"
      using ks by simp
    have "sorted_wrt (\<lambda>a b. is_null c b \<longrightarrow> is_null c a) out"
      unfolding out by (rule nulls_first_rows[OF ks nulls_last_stable_sort])
    moreover have "filter (has_key c k) out = filter (has_key c k) inp" for k
    proof -
      have "filter (\<lambda>y. tuple_eq (fst y) k) (rev (stable_sort (rev kxs)))
              = filter (\<lambda>y. tuple_eq (fst y) k) kxs"
        by (simp add: rev_filter[symmetric] filter_stable_sort)
      then show ?thesis
        unfolding out inp[symmetric]
        by (simp only: filter_rows_of_keyed[OF ks'] filter_rows_of_keyed[OF keys])
    qed
    ultimately show ?thesis using False by simp
  qed
qed

theorem sort_nulls_last_stable_witness:
  "sort_column (order_by (SimpleQuery
       [Row [(''c'', VNone), (''n'', VInt 0)],
        Row [(''c'', VInt 2), (''n'', VInt 1)],
        Row [(''c'', VInt 1), (''n'', VInt 2)],
        Row [(''c'', VInt 2), (''n'', VInt 3)]]) ''c'' True) = Some ''c''
   \<and> filtered_rows (order_by (SimpleQuery
       [Row [(''c'', VNone), (''n'', VInt 0)],
        Row [(''c'', VInt 2), (''n'', VInt 1)],
        Row [(''c'', VInt 1), (''n'', VInt 2)],
        Row [(''c'', VInt 2), (''n'', VInt 3)]]) ''c'' True)
     = Inr [Row [(''c'', VInt 1), (''n'', VInt 2)],
        Row [(''c'', VInt 2), (''n'', VInt 1)],
        Row [(''c'', VInt 2), (''n'', VInt 3)],
        Row [(''c'', VNone), (''n'', VInt 0)]]
   \<and> sorted_wrt (\<lambda>a b. is_null ''c'' a \<longrightarrow> is_null ''c'' b)
        [Row [(''c'', VInt 1), (''n'', VInt 2)],
        Row [(''c'', VInt 2), (''n'', VInt 1)],
        Row [(''c'', VInt 2), (''n'', VInt 3)],
        Row [(''c'', VNone), (''n'', VInt 0)]]
   \<and> filter (has_key ''c'' (False, VInt 2))
        [Row [(''c'', VInt 1), (''n'', VInt 2)],
        Row [(''c'', VInt 2), (''n'', VInt 1)],
        Row [(''c'', VInt 2), (''n'', VInt 3)],
        Row [(''c'', VNone), (''n'', VInt 0)]]
     = filter (has_key ''c'' (False, VInt 2))
        [Row [(''c'', VNone), (''n'', VInt 0)],
        Row [(''c'', VInt 2), (''n'', VInt 1)],
        Row [(''c'', VInt 1), (''n'', VInt 2)],
        Row [(''c'', VInt 2), (''n'', VInt 3)]]
   \<and> filtered_rows (order_by (SimpleQuery
       [Row [(''c'', VNone), (''n'', VInt 0)],
        Row [(''c'', VInt 2), (''n'', VInt 1)],
        Row [(''c'', VInt 1), (''n'', VInt 2)],
        Row [(''c'', VInt 2), (''n'', VInt 3)]]) ''c'' False)
     = Inr [Row [(''c'', VNone), (''n'', VInt 0)],
        Row [(''c'', VInt 2), (''n'', VInt 1)],
        Row [(''c'', VInt 2), (''n'', VInt 3)],
        Row [(''c'', VInt 1), (''n'', VInt 2)]]
   \<and> sorted_wrt (\<lambda>a b. is_null ''c'' b \<longrightarrow> is_null ''c'' a)
        [Row [(''c'', VNone), (''n'', VInt 0)],
        Row [(''c'', VInt 2), (''n'', VInt 1)],
        Row [(''c'', VInt 2), (''n'', VInt 3)],
        Row [(''c'', VInt 1), (''n'', VInt 2)]]
   \<and> filter (has_key ''c'' (False, VInt 2))
        [Row [(''c'', VNone), (''n'', VInt 0)],
        Row [(''c'', VInt 2), (''n'', VInt 1)],
        Row [(''c'', VInt 2), (''n'', VInt 3)],
        Row [(''c'', VInt 1), (''n'', VInt 2)]]
     = filter (has_key ''c'' (False, VInt 2))
        [Row [(''c'', VNone), (''n'', VInt 0)],
        Row [(''c'', VInt 2), (''n'', VInt 1)],
        Row [(''c'', VInt 1), (''n'', VInt 2)],
        Row [(''c'', VInt 2), (''n'', VInt 3)]]"
proof -
  let ?rn = "Row [(''c'', VNone), (''n'', VInt 0)]"
  let ?ra = "Row [(''c'', VInt 2), (''n'', VInt 1)]"
  let ?r1 = "Row [(''c'', VInt 1), (''n'', VInt 2)]"
  let ?rb = "Row [(''c'', VInt 2), (''n'', VInt 3)]"
  let ?q = "order_by (SimpleQuery [?rn, ?ra, ?r1, ?rb]) ''c'' True"
  let ?d = "order_by (SimpleQuery [?rn, ?ra, ?r1, ?rb]) ''c'' False"
  have h1: "sort_column ?q = Some ''c''" by (simp add: order_by_def)
  have asc: "sort_ascending ?q" by (simp add: order_by_def)
  have h2: "filter_rows (filter_conditions ?q) (q_table ?q) = Inr [?rn, ?ra, ?r1, ?rb]"
    by (simp add: order_by_def SimpleQuery_def)
  have h3: "filtered_rows ?q = Inr [?r1, ?ra, ?rb, ?rn]"
    by (simp add: filtered_rows_def order_by_def SimpleQuery_def key_func_def getitem_def Row_def
        list_sort_def stable_sort_def)
  have d1: "sort_column ?d = Some ''c''" by (simp add: order_by_def)
  have desc: "\<not> sort_ascending ?d" by (simp add: order_by_def)
  have d2: "filter_rows (filter_conditions ?d) (q_table ?d) = Inr [?rn, ?ra, ?r1, ?rb]"
    by (simp add: order_by_def SimpleQuery_def)
  have d3: "filtered_rows ?d = Inr [?rn, ?ra, ?rb, ?r1]"
    by (simp add: filtered_rows_def order_by_def SimpleQuery_def key_func_def getitem_def Row_def
        list_sort_def stable_sort_def)
  show ?thesis
    using h1 h3 asc sort_nulls_last_stable[OF h1 h2 h3]
      d3 desc sort_nulls_last_stable[OF d1 d2 d3]
    by blast
qed

text \<open>
  Claim C1, as stated, fails: sorting a null row and a row holding 1 in ascending order
  returns the row holding 1 first and the null row last.
\<close>

theorem sort_nulls_first_counterexample:
  "filtered_rows (order_by (SimpleQuery [Row [(''c'', VNone)], Row [(''c'', VInt 1)]]) ''c'' True)
     = Inr [Row [(''c'', VInt 1)], Row [(''c'', VNone)]]"
  by (simp add: filtered_rows_def order_by_def SimpleQuery_def key_func_def getitem_def Row_def
      list_sort_def stable_sort_def)

subsection \<open>Joins\<close>

lemma prefixed_inj: "prefixed tn k = prefixed tn k' \<longleftrightarrow> k = k'"
  by (simp add: prefixed_def)

lemma dom_prefixed_fields: "dom (prefixed_fields tn d) = prefixed tn ` fst ` set d"
  by (simp add: prefixed_fields_def dom_map_of_conv_image_fst image_image case_prod_beta)

lemma prefixed_fields_Cons:
  "prefixed_fields tn ((k, v) # d) = (prefixed_fields tn d)(prefixed tn k \<mapsto> v)"
  by (simp add: prefixed_fields_def)

lemma map_add_upd_left: "k \<notin> dom n \<Longrightarrow> (m(k \<mapsto> v)) ++ n = m ++ n(k \<mapsto> v)"
  by (rule ext) (auto simp: map_add_def split: option.splits)

lemma map_of_add_prefixed:
  "distinct (map fst items) \<Longrightarrow>
   map_of (add_prefixed tn d items) = map_of d ++ prefixed_fields tn items"
proof (induction items arbitrary: d)
  case Nil
  then show ?case by (simp add: add_prefixed_def prefixed_fields_def)
next
  case (Cons kv items)
  obtain k v where kv: "kv = (k, v)" by (cases kv)
  have kn: "k \<notin> fst ` set items" using Cons.prems kv by simp
  have fresh: "prefixed tn k \<notin> dom (prefixed_fields tn items)"
  proof
    assume "prefixed tn k \<in> dom (prefixed_fields tn items)"
    then obtain k' where k': "k' \<in> fst ` set items" "prefixed tn k = prefixed tn k'"
      unfolding dom_prefixed_fields by blast
    then have "k = k'" by (simp add: prefixed_inj)
    then show False using kn k'(1) by simp
  qed
  have "map_of (add_prefixed tn d (kv # items))
          = map_of (add_prefixed tn (AList.update (prefixed tn k) v d) items)"
    by (simp add: add_prefixed_def kv)
  also have "\<dots> = map_of (AList.update (prefixed tn k) v d) ++ prefixed_fields tn items"
    using Cons.IH Cons.prems by simp
  also have "\<dots> = (map_of d)(prefixed tn k \<mapsto> v) ++ prefixed_fields tn items"
    by (simp add: update_conv')
  also have "\<dots> = map_of d ++ (prefixed_fields tn items)(prefixed tn k \<mapsto> v)"
    by (rule map_add_upd_left[OF fresh])
  finally show ?case unfolding kv prefixed_fields_Cons .
qed

lemma join_row_union:
  "distinct (keys l) \<Longrightarrow> distinct (keys r) \<Longrightarrow>
   map_of (data (join_row lname rname l r)) = prefixed_fields lname (data l) ++ prefixed_fields rname (data r)"
  by (simp add: join_row_def Row_def keys_def map_of_add_prefixed)

lemma no_collision:
  assumes "\<not> prefix (lname @ ''.'') (rname @ ''.'')" and "\<not> prefix (rname @ ''.'') (lname @ ''.'')"
  shows "prefixed lname k \<noteq> prefixed rname k'"
proof
  assume eq: "prefixed lname k = prefixed rname k'"
  have "prefix (lname @ ''.'') (prefixed lname k)" by (simp add: prefixed_def prefix_def)
  moreover have "prefix (rname @ ''.'') (prefixed lname k)"
    unfolding eq by (simp add: prefixed_def prefix_def)
  ultimately show False using assms prefix_same_cases by blast
qed

lemma join_inner_eq:
  "join_inner lname rname lc rc l rs = Inr out \<Longrightarrow>
   out = concat (map (\<lambda>r. if joinable lc rc l r then [join_row lname rname l r] else []) rs)"
  by (induction rs arbitrary: out) (auto simp: joinable_def split: sum.splits if_splits)

lemma join_outer_eq:
  "join_outer lname rname lc rc ls rs = Inr out \<Longrightarrow>
   out = concat (map (\<lambda>l. concat (map (\<lambda>r. if joinable lc rc l r then [join_row lname rname l r] else []) rs)) ls)"
  by (induction ls arbitrary: out) (auto split: sum.splits dest: join_inner_eq)

text \<open>
  Claim C7, as amended. For every two tables such that neither table's name followed by
  \<open>"."\<close> is a prefix of the other's name followed by \<open>"."\<close> (so the names differ, and none
  continues the other after a dot), and whose rows are dictionaries (no key twice), and
  every pair of join columns for which the join is built: the output rows are, in
  left-major order, the rows \<open>join_row\<close> of the matching pairs; each of them holds exactly
  the union of the left row's fields prefixed with the left table's name and the right
  row's fields prefixed with the right table's name; and no prefixed field name of the left
  side is a prefixed field name of the right side.
\<close>

theorem join_rows_union:
  assumes "\<not> prefix (tbl_name left @ ''.'') (tbl_name right @ ''.'')"
    and "\<not> prefix (tbl_name right @ ''.'') (tbl_name left @ ''.'')"
    and "\<forall>l \<in> set (rows left). distinct (keys l)"
    and "\<forall>r \<in> set (rows right). distinct (keys r)"
    and "build_rows left right lc rc = Inr out"
  shows "out = concat (map (\<lambda>l. concat (map (\<lambda>r.
                 if joinable lc rc l r then [join_row (tbl_name left) (tbl_name right) l r] else [])
               (rows right))) (rows left))
       \<and> (\<forall>l \<in> set (rows left). \<forall>r \<in> set (rows right).
            map_of (data (join_row (tbl_name left) (tbl_name right) l r))
              = prefixed_fields (tbl_name left) (data l) ++ prefixed_fields (tbl_name right) (data r)
            \<and> dom (prefixed_fields (tbl_name left) (data l))
                \<inter> dom (prefixed_fields (tbl_name right) (data r)) = {})"
proof (intro conjI ballI)
  show "out = concat (map (\<lambda>l. concat (map (\<lambda>r.
                 if joinable lc rc l r then [join_row (tbl_name left) (tbl_name right) l r] else [])
               (rows right))) (rows left))"
    using assms(5) unfolding build_rows_def by (rule join_outer_eq)
next
  fix l r
  assume "l \<in> set (rows left)" "r \<in> set (rows right)"
  then show "map_of (data (join_row (tbl_name left) (tbl_name right) l r))
              = prefixed_fields (tbl_name left) (data l) ++ prefixed_fields (tbl_name right) (data r)"
    using assms(3,4) by (simp add: join_row_union)
next
  fix l r
  show "dom (prefixed_fields (tbl_name left) (data l))
          \<inter> dom (prefixed_fields (tbl_name right) (data r)) = {}"
    using no_collision[OF assms(1,2)] by (auto simp: dom_prefixed_fields)
qed

theorem join_rows_union_witness:
  "\<not> prefix (tbl_name users_t @ ''.'') (tbl_name orders_t @ ''.'')
   \<and> \<not> prefix (tbl_name orders_t @ ''.'') (tbl_name users_t @ ''.'')
   \<and> list_all (\<lambda>l. distinct (keys l)) (rows users_t)
   \<and> list_all (\<lambda>r. distinct (keys r)) (rows orders_t)
   \<and> build_rows users_t orders_t ''id'' ''user_id''
       = Inr [Row [(''users.id'', VInt 1), (''users.name'', VStr ''Alice''),
                   (''orders.id'', VInt 100), (''orders.user_id'', VInt 1)],
              Row [(''users.id'', VInt 2), (''users.name'', VStr ''Bob''),
                   (''orders.id'', VInt 101), (''orders.user_id'', VInt 2)]]
   \<and> map_of (data (join_row (tbl_name users_t) (tbl_name orders_t)
         \<lparr>data = [(''id'', VInt 1), (''name'', VStr ''Alice'')], row_id = Some 1\<rparr>
         \<lparr>data = [(''id'', VInt 100), (''user_id'', VInt 1)], row_id = Some 1\<rparr>))
       = prefixed_fields (tbl_name users_t) [(''id'', VInt 1), (''name'', VStr ''Alice'')]
           ++ prefixed_fields (tbl_name orders_t) [(''id'', VInt 100), (''user_id'', VInt 1)]
   \<and> dom (prefixed_fields (tbl_name users_t) [(''id'', VInt 1), (''name'', VStr ''Alice'')])
         \<inter> dom (prefixed_fields (tbl_name orders_t) [(''id'', VInt 100), (''user_id'', VInt 1)]) = {}"
proof -
  let ?l = "\<lparr>data = [(''id'', VInt 1), (''name'', VStr ''Alice'')], row_id = Some 1\<rparr>"
  let ?r = "\<lparr>data = [(''id'', VInt 100), (''user_id'', VInt 1)], row_id = Some 1\<rparr>"
  have p1: "\<not> prefix (tbl_name users_t @ ''.'') (tbl_name orders_t @ ''.'')"
    by (simp add: users_t_def orders_t_def)
  have p2: "\<not> prefix (tbl_name orders_t @ ''.'') (tbl_name users_t @ ''.'')"
    by (simp add: users_t_def orders_t_def)
  have d1: "\<forall>l \<in> set (rows users_t). distinct (keys l)"
    by (simp add: users_t_def keys_def)
  have d2: "\<forall>r \<in> set (rows orders_t). distinct (keys r)"
    by (simp add: orders_t_def keys_def)
  have b: "build_rows users_t orders_t ''id'' ''user_id''
       = Inr [Row [(''users.id'', VInt 1), (''users.name'', VStr ''Alice''),
                   (''orders.id'', VInt 100), (''orders.user_id'', VInt 1)],
              Row [(''users.id'', VInt 2), (''users.name'', VStr ''Bob''),
                   (''orders.id'', VInt 101), (''orders.user_id'', VInt 2)]]"
    by (simp add: build_rows_def users_t_def orders_t_def getitem_def join_row_def
        add_prefixed_def prefixed_def Row_def)
  have m: "?l \<in> set (rows users_t)" "?r \<in> set (rows orders_t)"
    by (simp_all add: users_t_def orders_t_def)
  have u: "map_of (data (join_row (tbl_name users_t) (tbl_name orders_t) ?l ?r))
       = prefixed_fields (tbl_name users_t) (data ?l) ++ prefixed_fields (tbl_name orders_t) (data ?r)
     \<and> dom (prefixed_fields (tbl_name users_t) (data ?l))
         \<inter> dom (prefixed_fields (tbl_name orders_t) (data ?r)) = {}"
    using join_rows_union[OF p1 p2 d1 d2 b] m by blast
  show ?thesis using p1 p2 d1 d2 b u by (simp add: list_all_iff)
qed

text \<open>
  Claim C7, as stated, fails. In a join of a table with itself the right row's fields
  overwrite the left row's: the second output row pairs the row holding 10 with the row
  holding 20 and holds only 20. Between a table named \<open>a\<close> with a field \<open>b.c\<close> and a table
  named \<open>a.b\<close> with a field \<open>c\<close>, both fields become \<open>a.b.c\<close> and the left value 1 is
  overwritten by the right value 2.
\<close>

theorem join_prefix_collision:
  "build_rows pairs_t pairs_t ''k'' ''k''
     = Inr [Row [(''t.k'', VInt 1), (''t.v'', VInt 10)], Row [(''t.k'', VInt 1), (''t.v'', VInt 20)],
            Row [(''t.k'', VInt 1), (''t.v'', VInt 10)], Row [(''t.k'', VInt 1), (''t.v'', VInt 20)]]
   \<and> build_rows table_a table_ab ''k'' ''k''
     = Inr [Row [(''a.k'', VInt 0), (''a.b.c'', VInt 2), (''a.b.k'', VInt 0)]]"
  by (simp add: build_rows_def pairs_t_def table_a_def table_ab_def getitem_def join_row_def
      add_prefixed_def prefixed_def Row_def)

subsection \<open>Missing columns\<close>

lemma getitem_missing: "c \<notin> set (keys r) \<Longrightarrow> getitem r c = Inl (KeyError c)"
  by (simp add: getitem_def keys_def map_of_eq_None_iff[THEN iffD2])

lemma getitem_KeyError_iff: "getitem r c = Inl (KeyError c) \<longleftrightarrow> c \<notin> set (keys r)"
proof -
  have "map_of (data r) c = None \<longleftrightarrow> c \<notin> set (keys r)"
    by (simp add: keys_def map_of_eq_None_iff)
  then show ?thesis by (cases "map_of (data r) c") (simp_all add: getitem_def)
qed

lemma matches_KeyError:
  "matches cs1 r = Inr True \<Longrightarrow> c \<notin> set (keys r) \<Longrightarrow>
   matches (cs1 @ (c, operator, v) # cs2) r = Inl (KeyError c)"
proof (induction cs1)
  case Nil
  then show ?case by (simp add: getitem_missing)
next
  case (Cons cl cs1)
  obtain c' op' v' where cl: "cl = (c', op', v')" by (cases cl)
  show ?case using Cons unfolding cl
    by (auto split: sum.splits if_splits)
qed

lemma filter_rows_error:
  "filter_rows cs pre = Inr kept \<Longrightarrow> matches cs r = Inl e \<Longrightarrow>
   filter_rows cs (pre @ r # post) = Inl e"
  by (induction pre arbitrary: kept) (auto split: sum.splits)

lemma key_func_error: "key_func c r = Inl e \<Longrightarrow> e = KeyError c"
  by (auto simp: key_func_def getitem_def split: sum.splits option.splits)

lemma keyed_KeyError:
  "r \<in> set rs \<Longrightarrow> c \<notin> set (keys r) \<Longrightarrow> keyed c rs = Inl (KeyError c)"
proof (induction rs)
  case Nil
  then show ?case by simp
next
  case (Cons r0 rs)
  show ?case
  proof (cases "key_func c r0")
    case (Inl e)
    then show ?thesis using key_func_error[OF Inl] by simp
  next
    case (Inr k)
    then have "r \<noteq> r0" using Cons.prems(2) by (auto simp: key_func_def getitem_missing)
    then have "keyed c rs = Inl (KeyError c)" using Cons by simp
    then show ?thesis using Inr by simp
  qed
qed

lemma getitem_error: "getitem r c = Inl e \<Longrightarrow> e = KeyError c"
  by (auto simp: getitem_def split: option.splits)

lemma avg_values_KeyError:
  "r \<in> set rs \<Longrightarrow> c \<notin> set (keys r) \<Longrightarrow> avg_values c rs = Inl (KeyError c)"
proof (induction rs)
  case Nil
  then show ?case by simp
next
  case (Cons r0 rs)
  show ?case
  proof (cases "getitem r0 c")
    case (Inl e)
    then show ?thesis using getitem_error[OF Inl] by simp
  next
    case (Inr k)
    then have "r \<noteq> r0" using Cons.prems(2) by (auto simp: getitem_missing)
    then have "avg_values c rs = Inl (KeyError c)" using Cons by simp
    then show ?thesis using Inr by simp
  qed
qed

lemma sum_loop_KeyError:
  "list_all (summable c) pre \<Longrightarrow> c \<notin> set (keys r) \<Longrightarrow>
   sum_loop c tot (pre @ r # post) = Inl (KeyError c)"
proof (induction pre arbitrary: tot)
  case Nil
  then show ?case by (simp add: getitem_missing)
next
  case (Cons p pre)
  from Cons.prems(1) obtain v where v: "getitem p c = Inr v" "v = VNone \<or> isinstance_int v"
    by (auto simp: summable_def split: sum.splits)
  have rest: "sum_loop c tot' (pre @ r # post) = Inl (KeyError c)" for tot'
    using Cons by simp
  show ?case
  proof (cases "v = VNone")
    case True
    then show ?thesis using v rest by simp
  next
    case False
    then have "isinstance_int v" using v by simp
    then obtain i where "int_of v = Some i" by (cases v) auto
    then show ?thesis using v False rest by (simp add: py_add_def)
  qed
qed

lemma filtered_rows_error_all:
  "filtered_rows q = Inl e \<Longrightarrow>
   execute q = Inl e \<and> count_q q = Inl e \<and> sum_q q a = Inl e \<and> avg_q q a = Inl e"
  by (simp add: execute_def count_q_def sum_q_def avg_q_def)

text \<open>
  Claim C10, as amended. \<open>insert\<close> stores in the row exactly the keys passed, so a column
  that was omitted has no entry, and the lookup of a row by column name raises \<open>KeyError\<close>
  exactly for the names that the row does not hold. A query raises that \<open>KeyError\<close> when
  it reaches such a lookup: \<open>execute\<close>, \<open>count\<close>, \<open>sum\<close> and \<open>avg\<close> raise it when a source
  row lacks the column of a where clause, the clauses before that one accept the row, and
  the rows before it are filtered without error; they raise it when the filter returns and
  one of the rows it returns lacks the \<open>order_by\<close> column; \<open>avg\<close> raises it when one of the
  filtered rows lacks its column; and \<open>sum\<close> raises it when one of the filtered rows lacks
  its column and the rows before that one hold \<open>None\<close> or a number there.
\<close>

theorem missing_column_KeyError:
  "(fst (insert_row t d) = Inr r \<longrightarrow> data r = d \<and> set (keys r) = fst ` set d)
   \<and> (getitem x c = Inl (KeyError c) \<longleftrightarrow> c \<notin> set (keys x))
   \<and> (q_table q = pre @ x # post \<and> filter_rows (filter_conditions q) pre = Inr kept
        \<and> filter_conditions q = csa @ (c, operator, v) # csb \<and> matches csa x = Inr True
        \<and> c \<notin> set (keys x)
        \<longrightarrow> execute q = Inl (KeyError c) \<and> count_q q = Inl (KeyError c)
            \<and> sum_q q a = Inl (KeyError c) \<and> avg_q q a = Inl (KeyError c))
   \<and> (filter_rows (filter_conditions q) (q_table q) = Inr flt \<and> sort_column q = Some c
        \<and> x \<in> set flt \<and> c \<notin> set (keys x)
        \<longrightarrow> execute q = Inl (KeyError c) \<and> count_q q = Inl (KeyError c)
            \<and> sum_q q a = Inl (KeyError c) \<and> avg_q q a = Inl (KeyError c))
   \<and> (filtered_rows q = Inr out \<and> x \<in> set out \<and> c \<notin> set (keys x)
        \<longrightarrow> avg_q q c = Inl (KeyError c))
   \<and> (filtered_rows q = Inr (pre @ x # post) \<and> list_all (summable c) pre \<and> c \<notin> set (keys x)
        \<longrightarrow> sum_q q c = Inl (KeyError c))"
proof (intro conjI impI)
  assume "fst (insert_row t d) = Inr r"
  then have "data r = d"
    by (auto simp: insert_row_def Row_def Let_def split: option.splits)
  then show "data r = d" "set (keys r) = fst ` set d" by (simp_all add: keys_def)
next
  show "getitem x c = Inl (KeyError c) \<longleftrightarrow> c \<notin> set (keys x)" by (rule getitem_KeyError_iff)
next
  assume h: "q_table q = pre @ x # post \<and> filter_rows (filter_conditions q) pre = Inr kept
        \<and> filter_conditions q = csa @ (c, operator, v) # csb \<and> matches csa x = Inr True
        \<and> c \<notin> set (keys x)"
  then have h1: "q_table q = pre @ x # post"
    and h2: "filter_rows (filter_conditions q) pre = Inr kept"
    and h3: "filter_conditions q = csa @ (c, operator, v) # csb"
    and h4: "matches csa x = Inr True" and h5: "c \<notin> set (keys x)"
    by blast+
  have "matches (filter_conditions q) x = Inl (KeyError c)"
    unfolding h3 by (rule matches_KeyError[OF h4 h5])
  then have "filter_rows (filter_conditions q) (pre @ x # post) = Inl (KeyError c)"
    by (rule filter_rows_error[OF h2])
  then have "filter_rows (filter_conditions q) (q_table q) = Inl (KeyError c)"
    by (simp only: h1)
  then have f: "filtered_rows q = Inl (KeyError c)" by (simp add: filtered_rows_def)
  show "execute q = Inl (KeyError c)" "count_q q = Inl (KeyError c)"
    "sum_q q a = Inl (KeyError c)" "avg_q q a = Inl (KeyError c)"
    using filtered_rows_error_all[OF f, of a] by simp_all
next
  assume h: "filter_rows (filter_conditions q) (q_table q) = Inr flt \<and> sort_column q = Some c
        \<and> x \<in> set flt \<and> c \<notin> set (keys x)"
  then have "keyed c flt = Inl (KeyError c)" using keyed_KeyError[of x flt c] by simp
  then have f: "filtered_rows q = Inl (KeyError c)" using h by (simp add: filtered_rows_def)
  show "execute q = Inl (KeyError c)" "count_q q = Inl (KeyError c)"
    "sum_q q a = Inl (KeyError c)" "avg_q q a = Inl (KeyError c)"
    using filtered_rows_error_all[OF f, of a] by simp_all
next
  assume h: "filtered_rows q = Inr out \<and> x \<in> set out \<and> c \<notin> set (keys x)"
  then have "avg_values c out = Inl (KeyError c)" using avg_values_KeyError[of x out c] by simp
  then show "avg_q q c = Inl (KeyError c)" using h by (simp add: avg_q_def)
next
  assume h: "filtered_rows q = Inr (pre @ x # post) \<and> list_all (summable c) pre \<and> c \<notin> set (keys x)"
  then have "sum_loop c 0 (pre @ x # post) = Inl (KeyError c)"
    using sum_loop_KeyError[of c pre x 0 post] by simp
  then show "sum_q q c = Inl (KeyError c)" using h by (simp add: sum_q_def)
qed

text \<open>
  Claim C10, as stated, fails. The first of two source rows lacks the column \<open>x\<close>, and the
  filter \<open>value > 10\<close> rejects that row: \<open>sum("x")\<close> and \<open>avg("x")\<close> return 1, \<open>execute\<close>
  with \<open>order_by("x")\<close> returns the second row, and \<open>count\<close> with a further clause on \<open>x\<close>
  returns 1. None of them raises.
\<close>

theorem missing_column_counterexample:
  "sum_q (where_q (SimpleQuery [Row [(''value'', VInt 5)], Row [(''value'', VInt 20), (''x'', VInt 1)]])
       ''value'' ''>'' (VInt 10)) ''x'' = Inr 1
   \<and> avg_q (where_q (SimpleQuery [Row [(''value'', VInt 5)], Row [(''value'', VInt 20), (''x'', VInt 1)]])
       ''value'' ''>'' (VInt 10)) ''x'' = Inr 1
   \<and> execute (order_by (where_q (SimpleQuery
         [Row [(''value'', VInt 5)], Row [(''value'', VInt 20), (''x'', VInt 1)]])
       ''value'' ''>'' (VInt 10)) ''x'' True)
     = Inr [Row [(''value'', VInt 20), (''x'', VInt 1)]]
   \<and> count_q (where_q (where_q (SimpleQuery
         [Row [(''value'', VInt 5)], Row [(''value'', VInt 20), (''x'', VInt 1)]])
       ''value'' ''>'' (VInt 10)) ''x'' ''='' (VInt 1)) = Inr 1"
  by (simp add: sum_q_def avg_q_def execute_def count_q_def filtered_rows_def where_q_def
      order_by_def SimpleQuery_def clause_rejects_def py_gt_def py_ne_def getitem_def Row_def
      py_add_def key_func_def list_sort_def stable_sort_def)

theorem missing_column_KeyError_witness:
  "fst (insert_row (Table ''t'' [flag_column]) []) = Inr \<lparr>data = [], row_id = Some 1\<rparr>
   \<and> data \<lparr>data = [], row_id = Some (1::int)\<rparr> = []
   \<and> getitem \<lparr>data = [], row_id = Some 1\<rparr> ''flag'' = Inl (KeyError ''flag'')
   \<and> execute (where_q (where_q (SimpleQuery
         [Row [(''a'', VInt 1), (''b'', VInt 2)], Row [(''a'', VInt 1)]])
         ''a'' ''='' (VInt 1)) ''b'' ''='' (VInt 2)) = Inl (KeyError ''b'')
   \<and> count_q (where_q (where_q (SimpleQuery
         [Row [(''a'', VInt 1), (''b'', VInt 2)], Row [(''a'', VInt 1)]])
         ''a'' ''='' (VInt 1)) ''b'' ''='' (VInt 2)) = Inl (KeyError ''b'')
   \<and> execute (order_by (SimpleQuery [Row [(''a'', VInt 1)], Row []]) ''a'' True)
       = Inl (KeyError ''a'')
   \<and> filtered_rows (SimpleQuery [Row [(''a'', VInt 1)], Row []])
       = Inr [Row [(''a'', VInt 1)], Row []]
   \<and> avg_q (SimpleQuery [Row [(''a'', VInt 1)], Row []]) ''a'' = Inl (KeyError ''a'')
   \<and> sum_q (SimpleQuery [Row [(''a'', VInt 1)], Row []]) ''a'' = Inl (KeyError ''a'')"
proof -
  let ?r0 = "\<lparr>data = [], row_id = Some (1::int)\<rparr>"
  let ?ra = "Row [(''a'', VInt 1), (''b'', VInt 2)]"
  let ?rb = "Row [(''a'', VInt 1)]"
  let ?qw = "where_q (where_q (SimpleQuery [?ra, ?rb]) ''a'' ''='' (VInt 1)) ''b'' ''='' (VInt 2)"
  let ?qo = "order_by (SimpleQuery [Row [(''a'', VInt 1)], Row []]) ''a'' True"
  let ?qs = "SimpleQuery [Row [(''a'', VInt 1)], Row []]"
  have i: "fst (insert_row (Table ''t'' [flag_column]) []) = Inr ?r0"
    by (simp add: insert_row_def Table_def validate_row_data_def dict_get_def column_validate_def
        flag_column_def Row_def Let_def)
  have i': "data ?r0 = []"
    using missing_column_KeyError[where t = "Table ''t'' [flag_column]" and d = "[]" and r = ?r0,
        THEN conjunct1] i
    by simp
  have g: "getitem ?r0 ''flag'' = Inl (KeyError ''flag'')"
    using missing_column_KeyError[where x = ?r0 and c = "''flag''", THEN conjunct2, THEN conjunct1]
    by (simp add: keys_def)
  have w1: "q_table ?qw = [?ra] @ ?rb # []" by (simp add: where_q_def SimpleQuery_def)
  have w2: "filter_rows (filter_conditions ?qw) [?ra] = Inr [?ra]"
    by (simp add: where_q_def SimpleQuery_def clause_rejects_def py_ne_def getitem_def Row_def)
  have w3: "filter_conditions ?qw = [(''a'', ''='', VInt 1)] @ (''b'', ''='', VInt 2) # []"
    by (simp add: where_q_def SimpleQuery_def)
  have w4: "matches [(''a'', ''='', VInt 1)] ?rb = Inr True"
    by (simp add: clause_rejects_def py_ne_def getitem_def Row_def)
  have w5: "''b'' \<notin> set (keys ?rb)" by (simp add: keys_def Row_def)
  have w: "execute ?qw = Inl (KeyError ''b'') \<and> count_q ?qw = Inl (KeyError ''b'')"
    using missing_column_KeyError[where q = ?qw and pre = "[?ra]" and x = ?rb and post = "[]"
        and kept = "[?ra]" and csa = "[(''a'', ''='', VInt 1)]" and c = "''b''"
        and operator = "''=''" and v = "VInt 2" and csb = "[]",
        THEN conjunct2, THEN conjunct2, THEN conjunct1] w1 w2 w3 w4 w5
    by blast
  have o1: "filter_rows (filter_conditions ?qo) (q_table ?qo) = Inr [Row [(''a'', VInt 1)], Row []]"
    by (simp add: order_by_def SimpleQuery_def)
  have o2: "sort_column ?qo = Some ''a''" by (simp add: order_by_def)
  have o3: "Row [] \<in> set [Row [(''a'', VInt 1)], Row []]" by simp
  have o4: "''a'' \<notin> set (keys (Row []))" by (simp add: keys_def Row_def)
  have o: "execute ?qo = Inl (KeyError ''a'')"
    using missing_column_KeyError[where q = ?qo and flt = "[Row [(''a'', VInt 1)], Row []]"
        and c = "''a''" and x = "Row []",
        THEN conjunct2, THEN conjunct2, THEN conjunct2, THEN conjunct1] o1 o2 o3 o4
    by blast
  have s1: "filtered_rows ?qs = Inr [Row [(''a'', VInt 1)], Row []]"
    by (simp add: filtered_rows_def SimpleQuery_def)
  have s1': "filtered_rows ?qs = Inr ([Row [(''a'', VInt 1)]] @ Row [] # [])"
    using s1 by simp
  have s2: "list_all (summable ''a'') [Row [(''a'', VInt 1)]]"
    by (simp add: summable_def getitem_def Row_def)
  have av: "avg_q ?qs ''a'' = Inl (KeyError ''a'')"
    using missing_column_KeyError[where q = ?qs and out = "[Row [(''a'', VInt 1)], Row []]"
        and x = "Row []" and c = "''a''",
        THEN conjunct2, THEN conjunct2, THEN conjunct2, THEN conjunct2, THEN conjunct1] s1 o3 o4
    by blast
  have su: "sum_q ?qs ''a'' = Inl (KeyError ''a'')"
    using missing_column_KeyError[where q = ?qs and pre = "[Row [(''a'', VInt 1)]]"
        and x = "Row []" and post = "[]" and c = "''a''",
        THEN conjunct2, THEN conjunct2, THEN conjunct2, THEN conjunct2, THEN conjunct2] s1' s2 o4
    by blast
  show ?thesis using i i' g w o s1 av su by simp
qed

end
